theory Spec2Isabelle
  imports Complex_Main "HOL-Library.Char_ord" "HOL-Library.List_Lexorder" "HOL-Library.AList"
begin

section \<open>Python strings\<close>

text \<open>
  A Python \<open>str\<close> is a sequence of Unicode code points; it is modelled as a list of
  natural numbers (the code points), ordered lexicographically as Python orders strings
  (\<open>HOL-Library.List_Lexorder\<close>: position by position, a proper prefix is smaller).
  \<open>pystr\<close> turns an ASCII literal into such a list.
\<close>

type_synonym pystr = "nat list"

definition pystr :: "string \<Rightarrow> pystr" where
  "pystr s = map of_char s"

section \<open>Scene-name comparison (\<open>TranslationWindow.compare_scenes\<close>)\<close>

text \<open>
  \<open>decimal_extract\<close> splits a name into fragments: maximal runs of the characters
  \<open>'0'..'9'\<close> become Python ints, the runs between them stay strings.
\<close>

datatype fragment = FInt int | FStr pystr

definition is_decimal :: "nat \<Rightarrow> bool" where
  \<comment> \<open>\<open>'0' <= c and c <= '9'\<close>\<close>
  "is_decimal c \<longleftrightarrow> 48 \<le> c \<and> c \<le> 57"

definition py_int :: "pystr \<Rightarrow> int" where
  \<comment> \<open>\<open>int(acc)\<close> on a string of the characters \<open>'0'..'9'\<close>: unbounded, leading zeros ignored\<close>
  "py_int acc = foldl (\<lambda>n c. 10 * n + (int c - 48)) 0 acc"

text \<open>The loop state of \<open>decimal_extract\<close>: \<open>ret\<close>, \<open>is_chr\<close> and \<open>acc\<close>.\<close>

type_synonym de_state = "fragment list \<times> bool \<times> pystr"

fun de_step :: "de_state \<Rightarrow> nat \<Rightarrow> de_state" where
  "de_step (ret, is_chr, acc) c =
     (if is_decimal c then
        (if is_chr \<and> acc \<noteq> [] then (ret @ [FStr acc], False, [c])
         else (ret, False, acc @ [c]))
      else
        (if \<not> is_chr \<and> acc \<noteq> [] then (ret @ [FInt (py_int acc)], True, [c])
         else (ret, True, acc @ [c])))"

fun de_finish :: "de_state \<Rightarrow> fragment list" where
  "de_finish (ret, is_chr, acc) =
     (if acc \<noteq> [] then ret @ [if is_chr then FStr acc else FInt (py_int acc)] else ret)"

definition decimal_extract :: "pystr \<Rightarrow> fragment list" where
  "decimal_extract val = de_finish (foldl de_step ([], True, []) val)"

text \<open>
  \<open>str(type(v))\<close> is \<open>"<class 'int'>"\<close> for an int and \<open>"<class 'str'>"\<close> for a string.
\<close>

fun type_name :: "fragment \<Rightarrow> string" where
  "type_name (FInt _) = ''<class 'int'>''"
| "type_name (FStr _) = ''<class 'str'>''"

text \<open>
  One round of the comparison loop on the fragments at index \<open>i\<close>; \<open>None\<close> means that
  the round returns nothing and the loop goes on.
\<close>

fun compare_fragment :: "fragment \<Rightarrow> fragment \<Rightarrow> int option" where
  "compare_fragment (FInt a) (FInt b) =
     (if a < b then Some (- 1) else if a > b then Some 1 else None)"
| "compare_fragment (FStr a) (FStr b) =
     (if a < b then Some (- 1) else if a > b then Some 1 else None)"
| "compare_fragment val_a val_b =
     (if type_name val_a < type_name val_b then Some (- 1)
      else if type_name val_a > type_name val_b then Some 1 else None)"

text \<open>
  The loop \<open>for i in range(max(len(scene_a), len(scene_b)))\<close>, as a recursion on the two
  remaining fragment lists: the list that ends first is the one with \<open>i >= len\<close>.
\<close>

fun compare_fragments :: "fragment list \<Rightarrow> fragment list \<Rightarrow> int" where
  "compare_fragments [] [] = 0"
| "compare_fragments [] (b # bs) = - 1"
| "compare_fragments (a # as) [] = 1"
| "compare_fragments (a # as) (b # bs) =
     (case compare_fragment a b of Some r \<Rightarrow> r | None \<Rightarrow> compare_fragments as bs)"

definition compare_scenes :: "pystr \<Rightarrow> pystr \<Rightarrow> int" where
  "compare_scenes in_a in_b = compare_fragments (decimal_extract in_a) (decimal_extract in_b)"

text \<open>The sign of the comparison of two numbers, as \<open>compare_scenes\<close> reports it.\<close>

definition three_way :: "int \<Rightarrow> int \<Rightarrow> int" where
  "three_way x y = (if x < y then - 1 else if x > y then 1 else 0)"

section \<open>Charswap configuration (\<open>TranslationWindow.save_charswap_config\<close>)\<close>

text \<open>
  \<open>s.split(sep)\<close> for a one-character separator: the pieces between the separators, always
  at least one piece, empty pieces kept. A character that is not the separator joins the
  first piece of the rest (the rest always has one, so the \<open>[]\<close> case is never taken).
\<close>

fun py_split :: "'a \<Rightarrow> 'a list \<Rightarrow> 'a list list" where
  "py_split sep [] = [[]]"
| "py_split sep (c # cs) =
     (if c = sep then [] # py_split sep cs
      else (case py_split sep cs of [] \<Rightarrow> [[c]] | w # ws \<Rightarrow> (c # w) # ws))"

definition is_space :: "nat \<Rightarrow> bool" where
  \<comment> \<open>the code points for which \<open>str.isspace\<close> holds, which are those \<open>str.strip()\<close> removes\<close>
  "is_space c \<longleftrightarrow>
     (9 \<le> c \<and> c \<le> 13) \<or> (28 \<le> c \<and> c \<le> 32) \<or> c = 133 \<or> c = 160 \<or> c = 5760 \<or>
     (8192 \<le> c \<and> c \<le> 8202) \<or> c = 8232 \<or> c = 8233 \<or> c = 8239 \<or> c = 8287 \<or> c = 12288"

definition py_strip :: "pystr \<Rightarrow> pystr" where
  "py_strip s = rev (dropWhile is_space (rev (dropWhile is_space s)))"

text \<open>What \<open>print\<close> writes: \<open>Invalid charswap entry '{line}', ignoring\<close>, kept by its line.\<close>

datatype diagnostic = Invalid_charswap_entry pystr

text \<open>
  The dictionary \<open>swap_map\<close> is an association list in insertion order; assigning to a key
  that is present replaces its value in place, as a Python dict does.
\<close>

type_synonym swap_map = "(pystr \<times> pystr) list"

text \<open>One round of the loop over the lines: the state is \<open>swap_map\<close> and the printed output.\<close>

fun charswap_line :: "swap_map \<times> diagnostic list \<Rightarrow> pystr \<Rightarrow> swap_map \<times> diagnostic list" where
  "charswap_line (swap_map, out) line =
     (if line = [] then (swap_map, out)
      else let split_line = py_split 44 line in
        if length split_line \<noteq> 2 then (swap_map, out @ [Invalid_charswap_entry line])
        else (AList.update (py_strip (split_line ! 0)) (py_strip (split_line ! 1)) swap_map, out))"

definition parse_charswap :: "pystr \<Rightarrow> swap_map \<times> diagnostic list" where
  "parse_charswap swap_conf_text = foldl charswap_line ([], []) (py_split 10 swap_conf_text)"

text \<open>The lines that reach the assignment, and the key and value each one assigns.\<close>

definition is_pair_line :: "pystr \<Rightarrow> bool" where
  "is_pair_line line \<longleftrightarrow> line \<noteq> [] \<and> length (py_split 44 line) = 2"

definition pair_key :: "pystr \<Rightarrow> pystr" where
  "pair_key line = py_strip (py_split 44 line ! 0)"

definition pair_value :: "pystr \<Rightarrow> pystr" where
  "pair_value line = py_strip (py_split 44 line ! 1)"

section \<open>The translation database as the editor sees it\<close>

text \<open>
  The class \<open>TranslationDb\<close> (\<open>luna/translation_db.py\<close>) is not among the sources; the
  editor window and the tests use it through the constructors and methods modelled here.
  The field names are those the window and the tests read.
\<close>

text \<open>\<open>TranslationDb.TLLine(jp_text, en_text=None, comment=None)\<close>\<close>

record tl_line =
  jp_text :: pystr
  en_text :: "pystr option"
  comment :: "pystr option"

text \<open>
  \<open>TranslationDb.TextCommand(offset, jp_hash, page_number, modifiers=[],
  has_forced_newline=False, is_glued=False)\<close>
\<close>

record text_command =
  offset :: nat
  jp_hash :: pystr
  page_number :: nat
  modifiers :: "pystr list"
  has_forced_newline :: bool
  is_glued :: bool

text \<open>
  Modelled from the spec: the class of the values of \<open>_overrides_by_offset\<close> is missing from
  the sources. Spec 3, \<open>Override\<close> (keyed by offset): \<open>translated_text\<close>, \<open>comment\<close>.
\<close>

record override =
  ov_en_text :: "pystr option"
  ov_comment :: "pystr option"

text \<open>
  \<open>TranslationDb(scene_map, line_by_hash, overrides_by_offset)\<close>: three dictionaries, kept as
  association lists in insertion order.
\<close>

record translation_db =
  scene_map :: "(pystr \<times> text_command list) list"
  line_by_hash :: "(pystr \<times> tl_line) list"
  overrides_by_offset :: "(nat \<times> override) list"

text \<open>Python truthiness of an optional string: \<open>None\<close> and \<open>''\<close> are false.\<close>

fun truthy :: "pystr option \<Rightarrow> bool" where
  "truthy None = False"
| "truthy (Some s) = (s \<noteq> [])"

text \<open>
  Modelled from the spec: \<open>TranslationDb.set_translation_and_comment_for_hash\<close> is missing from
  the sources. Spec 4.2, \<open>set_by_hash(hash, text, comment)\<close>: ``mutates the shared entry;
  affects every reference sharing that hash''. The source text of the entry is immutable
  (spec 3), so only the translated text and the comment change; a hash without an entry
  has nothing to mutate.
\<close>

definition set_translation_and_comment_for_hash ::
    "pystr \<Rightarrow> pystr option \<Rightarrow> pystr option \<Rightarrow> translation_db \<Rightarrow> translation_db" where
  "set_translation_and_comment_for_hash h text cmt db =
     db\<lparr>line_by_hash := AList.map_entry h (\<lambda>l. l\<lparr>en_text := text, comment := cmt\<rparr>) (line_by_hash db)\<rparr>"

text \<open>
  Modelled from the spec: \<open>TranslationDb.override_translation_and_comment_for_offset\<close> is
  missing from the sources. Spec 4.2, \<open>set_by_offset(offset, text, comment)\<close>: ``creates/updates
  an override for exactly that offset; does not affect sibling occurrences of the same hash''.
\<close>

definition override_translation_and_comment_for_offset ::
    "nat \<Rightarrow> pystr option \<Rightarrow> pystr option \<Rightarrow> translation_db \<Rightarrow> translation_db" where
  "override_translation_and_comment_for_offset off text cmt db =
     db\<lparr>overrides_by_offset :=
          AList.update off \<lparr>ov_en_text = text, ov_comment = cmt\<rparr> (overrides_by_offset db)\<rparr>"

text \<open>
  The window's own statement
  \<open>if offset in db._overrides_by_offset: del db._overrides_by_offset[offset]\<close>.
\<close>

definition delete_override :: "nat \<Rightarrow> translation_db \<Rightarrow> translation_db" where
  "delete_override off db =
     (if off \<in> fst ` set (overrides_by_offset db)
      then db\<lparr>overrides_by_offset := AList.delete off (overrides_by_offset db)\<rparr>
      else db)"

section \<open>Per-scene completion (\<open>TranslationWindow.update_selected_scene_tl_percent\<close>)\<close>

text \<open>
  The loop over \<open>scene_lines\<close>; its state is \<open>(idx, translated_count)\<close>. The absent method
  \<open>tl_line_with_hash\<close> is a parameter.
\<close>

fun scene_count_line :: "(pystr \<Rightarrow> tl_line) \<Rightarrow> nat \<times> nat \<Rightarrow> text_command \<Rightarrow> nat \<times> nat" where
  "scene_count_line tl_line_with_hash (idx, translated_count) line =
     (let tl_info = tl_line_with_hash (jp_hash line) in
      (idx + 1, if truthy (en_text tl_info) then translated_count + 1 else translated_count))"

text \<open>
  The value handed to \<open>round(_, 1)\<close> for display,
  \<open>translated_count*100/max(idx, 1)\<close>, a true division; nothing is computed when no scene is
  loaded (\<open>_loaded_scene\<close> is \<open>None\<close> or the empty name). The absent method
  \<open>lines_for_scene\<close> is a parameter. The rounding of the float to one decimal for display is
  not part of the model.
\<close>

definition update_selected_scene_tl_percent ::
    "(pystr \<Rightarrow> text_command list) \<Rightarrow> (pystr \<Rightarrow> tl_line) \<Rightarrow> pystr option \<Rightarrow> rat option" where
  "update_selected_scene_tl_percent lines_for_scene tl_line_with_hash loaded_scene =
     (if \<not> truthy loaded_scene then None
      else let scene_lines = lines_for_scene (the loaded_scene);
               (idx, translated_count) = foldl (scene_count_line tl_line_with_hash) (0, 0) scene_lines
           in Some (of_nat (translated_count * 100) / of_nat (max idx 1)))"

text \<open>A line of a scene counts as translated when the entry of its hash has a translated text.\<close>

definition line_translated :: "(pystr \<Rightarrow> tl_line) \<Rightarrow> text_command \<Rightarrow> bool" where
  "line_translated tl_line_with_hash line \<longleftrightarrow> truthy (en_text (tl_line_with_hash (jp_hash line)))"

section \<open>Global completion (\<open>TranslationDb.translated_percent\<close>)\<close>

text \<open>
  Modelled from the spec: \<open>TranslationDb.translated_percent\<close> is missing from the sources.
  Spec 4.2: ``fraction of distinct \<open>content_hash\<close> entries with non-empty translated text,
  over all entries, as a percentage''. The entries are those of the hash-keyed dictionary,
  one per hash. The spec gives no value for a database without entries; the quotient below
  is \<open>0\<close> there.
\<close>

definition translated_percent :: "translation_db \<Rightarrow> rat" where
  "translated_percent db =
     100 * of_nat (length (filter (\<lambda>(h, l). truthy (en_text l)) (line_by_hash db)))
       / of_nat (length (line_by_hash db))"

section \<open>Conflict resolution (\<open>TranslationWindow.commit_conflict_resolution\<close>)\<close>

text \<open>
  A candidate of an import diff, with the fields the window reads: \<open>filename\<close>, \<open>line\<close>,
  \<open>_offset\<close>, \<open>en_text\<close>, \<open>comment\<close>.
\<close>

record diff_entry =
  filename :: pystr
  line :: nat
  entry_offset :: nat
  entry_en_text :: "pystr option"
  entry_comment :: "pystr option"

text \<open>
  A Tk listbox of the conflict dialog, as far as the commit reads it: \<open>size()\<close> and
  \<open>curselection()\<close>.
\<close>

record listbox =
  lb_size :: nat
  curselection :: "nat list"

datatype py_error = IndexError | KeyError

text \<open>
  The loop \<open>for index in range(listbox.size())\<close>: an entry that is not selected is committed
  by hash and the override of its offset, if there is one, is deleted.
\<close>

fun commit_unselected ::
    "pystr \<Rightarrow> diff_entry list \<Rightarrow> nat list \<Rightarrow> nat list \<Rightarrow> translation_db \<Rightarrow> py_error + translation_db" where
  "commit_unselected sha entries selected_indexes [] db = Inr db"
| "commit_unselected sha entries selected_indexes (index # rest) db =
     (if index \<notin> set selected_indexes then
        (if index < length entries then
           (let selected_tl = entries ! index in
            commit_unselected sha entries selected_indexes rest
              (delete_override (entry_offset selected_tl)
                 (set_translation_and_comment_for_hash sha
                    (entry_en_text selected_tl) (entry_comment selected_tl) db)))
         else Inl IndexError)
      else commit_unselected sha entries selected_indexes rest db)"

text \<open>The loop \<open>for selected in selected_indexes\<close>: a selected entry is written by offset.\<close>

fun commit_selected :: "diff_entry list \<Rightarrow> nat list \<Rightarrow> translation_db \<Rightarrow> py_error + translation_db" where
  "commit_selected entries [] db = Inr db"
| "commit_selected entries (selected # rest) db =
     (if selected < length entries then
        (let selected_tl = entries ! selected in
         commit_selected entries rest
           (override_translation_and_comment_for_offset (entry_offset selected_tl)
              (entry_en_text selected_tl) (entry_comment selected_tl) db))
      else Inl IndexError)"

text \<open>The body of the outer loop for one conflict group and its listbox.\<close>

definition commit_group ::
    "pystr \<Rightarrow> diff_entry list \<Rightarrow> listbox \<Rightarrow> translation_db \<Rightarrow> py_error + translation_db" where
  "commit_group sha entries lb db =
     (let selected_indexes = curselection lb in
      if selected_indexes = [] then Inr db
      else case commit_unselected sha entries selected_indexes [0..<lb_size lb] db of
             Inl e \<Rightarrow> Inl e
           | Inr db1 \<Rightarrow> commit_selected entries selected_indexes db1)"

text \<open>
  The outer loop \<open>for i in range(len(ordered_hashes))\<close>, over the remaining indices.
  \<open>active_conflicts\<close> is the dictionary from hash to the entries of its group.
\<close>

fun commit_groups ::
    "(pystr \<times> diff_entry list) list \<Rightarrow> pystr list \<Rightarrow> listbox list \<Rightarrow> nat list \<Rightarrow>
       translation_db \<Rightarrow> py_error + translation_db" where
  "commit_groups active_conflicts ordered_hashes conflict_listboxes [] db = Inr db"
| "commit_groups active_conflicts ordered_hashes conflict_listboxes (i # rest) db =
     (if i < length ordered_hashes then
        (case map_of active_conflicts (ordered_hashes ! i) of
           None \<Rightarrow> Inl KeyError
         | Some entries \<Rightarrow>
            (if i < length conflict_listboxes then
               (case commit_group (ordered_hashes ! i) entries (conflict_listboxes ! i) db of
                  Inl e \<Rightarrow> Inl e
                | Inr db' \<Rightarrow> commit_groups active_conflicts ordered_hashes conflict_listboxes rest db')
             else Inl IndexError))
      else Inl IndexError)"

definition commit_conflict_resolution ::
    "(pystr \<times> diff_entry list) list \<Rightarrow> listbox list \<Rightarrow> translation_db \<Rightarrow> py_error + translation_db" where
  "commit_conflict_resolution active_conflicts conflict_listboxes db =
     (let ordered_hashes = sort (map fst active_conflicts) in
      commit_groups active_conflicts ordered_hashes conflict_listboxes
        [0..<length ordered_hashes] db)"

text \<open>
  What \<open>show_conflict_resolution\<close> sets up before the commit: one listbox for each hash in
  sorted order, with one row for each entry of the group; the user selects rows of it.
\<close>

definition dialog_shown :: "(pystr \<times> diff_entry list) list \<Rightarrow> listbox list \<Rightarrow> bool" where
  "dialog_shown active_conflicts conflict_listboxes \<longleftrightarrow>
     length conflict_listboxes = length active_conflicts \<and>
     (\<forall>i < length active_conflicts.
        map_of active_conflicts (sort (map fst active_conflicts) ! i) \<noteq> None \<and>
        lb_size (conflict_listboxes ! i) =
          length (the (map_of active_conflicts (sort (map fst active_conflicts) ! i))) \<and>
        (\<forall>k \<in> set (curselection (conflict_listboxes ! i)). k < lb_size (conflict_listboxes ! i)))"

text \<open>
  A diff groups its entries by the hash that the offset of each entry resolves to, so an
  offset belongs to the group of one hash.
\<close>

definition grouped_by_hash :: "(nat \<Rightarrow> pystr) \<Rightarrow> (pystr \<times> diff_entry list) list \<Rightarrow> bool" where
  "grouped_by_hash hash_of_offset active_conflicts \<longleftrightarrow>
     (\<forall>(h, entries) \<in> set active_conflicts. \<forall>e \<in> set entries. hash_of_offset (entry_offset e) = h)"

text \<open>The override that a selected entry asks for.\<close>

definition override_of :: "diff_entry \<Rightarrow> override" where
  "override_of e = \<lparr>ov_en_text = entry_en_text e, ov_comment = entry_comment e\<rparr>"

text \<open>The hash-keyed entry after an entry of the diff was committed by hash.\<close>

definition committed_by_hash :: "diff_entry \<Rightarrow> tl_line \<Rightarrow> tl_line" where
  "committed_by_hash e l = l\<lparr>en_text := entry_en_text e, comment := entry_comment e\<rparr>"

text \<open>The bodies of the two inner loops, for an index that is in range.\<close>

definition unselected_step :: "pystr \<Rightarrow> diff_entry list \<Rightarrow> translation_db \<Rightarrow> nat \<Rightarrow> translation_db" where
  "unselected_step sha entries db index =
     delete_override (entry_offset (entries ! index))
       (set_translation_and_comment_for_hash sha
          (entry_en_text (entries ! index)) (entry_comment (entries ! index)) db)"

definition selected_step :: "diff_entry list \<Rightarrow> translation_db \<Rightarrow> nat \<Rightarrow> translation_db" where
  "selected_step entries db selected =
     override_translation_and_comment_for_offset (entry_offset (entries ! selected))
       (entry_en_text (entries ! selected)) (entry_comment (entries ! selected)) db"

text \<open>The database after the body of the outer loop, for a group whose indices are in range.\<close>

definition group_committed :: "pystr \<Rightarrow> diff_entry list \<Rightarrow> listbox \<Rightarrow> translation_db \<Rightarrow> translation_db" where
  "group_committed sha entries lb db =
     (if curselection lb = [] then db
      else foldl (selected_step entries)
             (foldl (unselected_step sha entries) db
                (filter (\<lambda>j. j \<notin> set (curselection lb)) [0..<lb_size lb]))
             (curselection lb))"

definition row_shown ::
    "(pystr \<times> diff_entry list) list \<Rightarrow> pystr list \<Rightarrow> listbox list \<Rightarrow> nat \<Rightarrow> bool" where
  "row_shown active_conflicts ordered_hashes conflict_listboxes i \<longleftrightarrow>
     i < length ordered_hashes \<and> i < length conflict_listboxes \<and>
     map_of active_conflicts (ordered_hashes ! i) \<noteq> None \<and>
     lb_size (conflict_listboxes ! i) = length (the (map_of active_conflicts (ordered_hashes ! i))) \<and>
     (\<forall>k \<in> set (curselection (conflict_listboxes ! i)). k < lb_size (conflict_listboxes ! i))"

section \<open>Legacy import (\<open>TranslationWindow.import_legacy_updates\<close>)\<close>

text \<open>
  Modelled from the spec: \<open>TranslationDb.import_legacy_update_file\<close> is missing from the
  sources, and the legacy file format is outside the spec (spec 1). Spec 4.5 and 7 give its
  contract: the file is applied to the store, or the import fails with a recoverable error
  and ``must leave the store unchanged for that file''. The error is the \<open>AssertionError\<close>
  that the window catches. The adapter is therefore a parameter of this type: given the path
  of a file and the store, \<open>Inr\<close> is the updated store, \<open>Inl\<close> the message of the
  \<open>AssertionError\<close>, with the store as it was.
\<close>

type_synonym legacy_adapter = "pystr \<times> pystr \<Rightarrow> translation_db \<Rightarrow> pystr + translation_db"

text \<open>\<open>s.endswith(suffix)\<close>\<close>

definition py_endswith :: "pystr \<Rightarrow> pystr \<Rightarrow> bool" where
  "py_endswith s suffix \<longleftrightarrow>
     length suffix \<le> length s \<and> drop (length s - length suffix) s = suffix"

text \<open>The line printed for a file that failed: \<open>Failed to apply updates from {filename}: {e}\<close>.\<close>

datatype legacy_report = Failed_to_apply pystr pystr

text \<open>
  The state that the loop changes: the store, the files deleted with \<open>os.unlink\<close>, and the
  printed output. A file is the pair \<open>(basedir, filename)\<close> that \<open>os.walk\<close> yields, which
  \<open>os.path.join\<close> makes the absolute path.
\<close>

record legacy_state =
  ls_store :: translation_db
  ls_unlinked :: "(pystr \<times> pystr) list"
  ls_printed :: "legacy_report list"

text \<open>The body of the loop for one file of the walk.\<close>

definition import_legacy_file :: "legacy_adapter \<Rightarrow> legacy_state \<Rightarrow> pystr \<times> pystr \<Rightarrow> legacy_state" where
  "import_legacy_file import_legacy_update_file st file =
     (if \<not> py_endswith (snd file) (pystr ''.txt'') then st
      else case import_legacy_update_file file (ls_store st) of
             Inr store' \<Rightarrow> st\<lparr>ls_store := store', ls_unlinked := ls_unlinked st @ [file]\<rparr>
           | Inl e \<Rightarrow> st\<lparr>ls_printed := ls_printed st @ [Failed_to_apply (snd file) e]\<rparr>)"

definition import_legacy_updates ::
    "legacy_adapter \<Rightarrow> (pystr \<times> pystr) list \<Rightarrow> legacy_state \<Rightarrow> legacy_state" where
  "import_legacy_updates import_legacy_update_file walk st =
     foldl (import_legacy_file import_legacy_update_file) st walk"

section \<open>Reflow (\<open>TranslationDb.generate_linebroken_text_map\<close>)\<close>

text \<open>
  \<open>TranslationDb.generate_linebroken_text_map\<close> and the methods it rests on are missing from
  the sources; every definition of this section is modelled from spec 4.2 (\<open>resolve\<close>) and
  spec 4.3 (rules 1 to 5). The tests \<open>test_glue_lookahead\<close> and \<open>test_glue_aligned_line\<close> of
  \<open>tests/test_translation_db.py\<close> fix what the spec leaves open: the line width, and that a
  break takes the place of the whitespace character before the word that no longer fits.
\<close>

text \<open>
  Modelled from the spec: the constant for the ``fixed maximum line width (characters)'' of
  spec 4.3 is missing from the sources. It is 55: the first text of either glue test has 55
  characters and fits its line, the 56 characters of the glued buffer of
  \<open>test_glue_lookahead\<close> do not.
\<close>

definition chars_per_line :: nat where
  "chars_per_line = 55"

text \<open>
  Modelled from the spec: the resolution of a reference to its text is missing from the
  sources. Spec 4.2: ``if neither has translated text, effective translation is empty''.
\<close>

fun text_or_empty :: "pystr option \<Rightarrow> pystr" where
  "text_or_empty None = []"
| "text_or_empty (Some s) = s"

text \<open>
  Modelled from the spec: \<open>resolve(ref)\<close> is missing from the sources. Spec 4.2: ``if an
  \<open>Override\<close> exists for \<open>ref.offset\<close>, return it; otherwise return the \<open>TranslationEntry\<close> for
  \<open>ref.content_hash\<close>''.
\<close>

definition resolved_text :: "translation_db \<Rightarrow> text_command \<Rightarrow> pystr" where
  "resolved_text db cmd =
     (case map_of (overrides_by_offset db) (offset cmd) of
        Some ov \<Rightarrow> text_or_empty (ov_en_text ov)
      | None \<Rightarrow> (case map_of (line_by_hash db) (jp_hash cmd) of
                   Some l \<Rightarrow> text_or_empty (en_text l)
                 | None \<Rightarrow> []))"

text \<open>
  Modelled from the spec: the grouping into glue chains is missing from the sources. Spec
  4.3: ``a glue chain = a maximal run where each reference after the first has
  \<open>is_glued = true\<close>''. A reference opens the chain that the glued references after it
  continue.
\<close>

fun glue_chains :: "text_command list \<Rightarrow> text_command list list" where
  "glue_chains [] = []"
| "glue_chains (c # cs) =
     (case glue_chains cs of
        [] \<Rightarrow> [[c]]
      | chain # others \<Rightarrow>
          (case chain of
             [] \<Rightarrow> [c] # others
           | next_cmd # _ \<Rightarrow> if is_glued next_cmd then (c # chain) # others
                            else [c] # chain # others))"

text \<open>
  Modelled from the spec: the word wrap is missing from the sources. Spec 4.3, rule 2:
  ``accumulate words separated by whitespace''. The buffer is cut into runs of whitespace
  and words.
\<close>

datatype run = Space pystr | Word pystr

text \<open>
  Modelled from the spec: the cutting of the buffer into its runs (spec 4.3, rule 2), from
  the right: a character extends the run that starts after it when it is of the same kind.
\<close>

fun runs :: "pystr \<Rightarrow> run list" where
  "runs [] = []"
| "runs (c # cs) =
     (case runs cs of
        [] \<Rightarrow> [if is_space c then Space [c] else Word [c]]
      | Space s # rest \<Rightarrow> if is_space c then Space (c # s) # rest else Word [c] # Space s # rest
      | Word w # rest \<Rightarrow> if is_space c then Space [c] # Word w # rest else Word (c # w) # rest)"

text \<open>
  Modelled from the spec: a cell of the wrapped buffer (spec 4.3, rules 2 and 3) is a
  character that stays or a break that took the place of a whitespace character.
\<close>

datatype cell = Keep nat | Break

text \<open>
  Modelled from the spec: the greedy wrap of spec 4.3, rule 2: ``until adding the next word
  would exceed the width, then emit a break; never split inside a word''. \<open>col\<close> is the
  number of characters on the current line. A word that would end beyond the width, and is
  not the first of its line, starts a new line: the break takes the place of the whitespace
  character before it, as both glue tests expect.
\<close>

fun wrap_runs :: "nat \<Rightarrow> run list \<Rightarrow> cell list" where
  "wrap_runs col [] = []"
| "wrap_runs col (Word w # rest) = map Keep w @ wrap_runs (col + length w) rest"
| "wrap_runs col [Space s] = map Keep s"
| "wrap_runs col (Space s # Space s' # rest) = map Keep s @ wrap_runs (col + length s) (Space s' # rest)"
| "wrap_runs col (Space s # Word w # rest) =
     (if 0 < col \<and> chars_per_line < col + length s + length w
      then map Keep (butlast s) @ [Break] @ map Keep w @ wrap_runs (length w) rest
      else map Keep s @ map Keep w @ wrap_runs (col + length s + length w) rest)"

text \<open>Modelled from the spec: the wrap of a whole virtual buffer (spec 4.3, rules 1 and 2).\<close>

definition wrap_buffer :: "pystr \<Rightarrow> cell list" where
  "wrap_buffer buffer = wrap_runs 0 (runs buffer)"

text \<open>
  Modelled from the spec: spec 4.3, rules 1 and 3: the wrapped buffer is cut at the
  boundaries of the references, ``preserving the offset boundary positions within it''.
\<close>

fun split_spans :: "nat list \<Rightarrow> 'a list \<Rightarrow> 'a list list" where
  "split_spans [] cells = []"
| "split_spans (n # ns) cells = take n cells # split_spans ns (drop n cells)"

text \<open>Modelled from the spec: a break is written as the line feed (code point 10).\<close>

fun render_cell :: "cell \<Rightarrow> nat" where
  "render_cell (Keep c) = c"
| "render_cell Break = 10"

text \<open>
  Modelled from the spec: the test for a break on a boundary (spec 4.3, rule 3): the break
  is the head of the span that follows.
\<close>

fun starts_with_break :: "cell list list \<Rightarrow> bool" where
  "starts_with_break ((Break # _) # _) = True"
| "starts_with_break _ = False"

text \<open>
  Modelled from the spec: spec 4.3, rule 3. A break inside the span of a reference is a line
  break there; a break that falls on the boundary, at the head of the next span, is
  ``appended to the end of that reference's text rather than the start of the next'' and
  is no longer part of the next one, as \<open>test_glue_aligned_line\<close> expects. \<open>head_moved\<close> tells
  that the head of this span was given to the reference before.
\<close>

fun render_spans :: "bool \<Rightarrow> cell list list \<Rightarrow> pystr list" where
  "render_spans head_moved [] = []"
| "render_spans head_moved (cells # later) =
     (map render_cell (if head_moved then tl cells else cells) @
        (if starts_with_break later then [10] else []))
     # render_spans (starts_with_break later) later"

text \<open>
  Modelled from the spec: the reflow of one glue chain (spec 4.3, rules 1 to 5): the resolved
  texts are one buffer, which is wrapped and cut back into the text of each offset.
\<close>

definition reflow_chain :: "translation_db \<Rightarrow> text_command list \<Rightarrow> (nat \<times> pystr) list" where
  "reflow_chain db chain =
     (let texts = map (resolved_text db) chain;
          cells = wrap_buffer (concat texts)
      in zip (map offset chain) (render_spans False (split_spans (map length texts) cells)))"

text \<open>
  Modelled from the spec: \<open>TranslationDb.generate_linebroken_text_map\<close> is missing from the
  sources. Spec 4.3: ``mapping from offset to final display text''; here over all scenes of
  the database, in their order, as the tests call it.
\<close>

definition generate_linebroken_text_map :: "translation_db \<Rightarrow> (nat \<times> pystr) list" where
  "generate_linebroken_text_map db =
     concat (map (\<lambda>(name, cmds). concat (map (reflow_chain db) (glue_chains cmds))) (scene_map db))"

text \<open>
  The test fixture \<open>LinebreakTests.mock_db(lines, cmds)\<close>, for two lines and the two commands
  of the glue tests; \<open>content_hash\<close> is the absent digest of the source text of a line.
\<close>

definition glue_test_db :: "(pystr \<Rightarrow> pystr) \<Rightarrow> pystr \<Rightarrow> pystr \<Rightarrow> translation_db" where
  "glue_test_db content_hash text0 text1 =
     \<lparr>scene_map =
        [(pystr ''test_scene'',
          [\<lparr>offset = 0, jp_hash = content_hash (pystr ''jp0''), page_number = 0, modifiers = [],
             has_forced_newline = False, is_glued = False\<rparr>,
           \<lparr>offset = 1, jp_hash = content_hash (pystr ''jp1''), page_number = 0, modifiers = [],
             has_forced_newline = False, is_glued = True\<rparr>])],
      line_by_hash =
        [(content_hash (pystr ''jp0''), \<lparr>jp_text = pystr ''jp0'', en_text = Some text0, comment = None\<rparr>),
         (content_hash (pystr ''jp1''), \<lparr>jp_text = pystr ''jp1'', en_text = Some text1, comment = None\<rparr>)],
      overrides_by_offset = []\<rparr>"

section \<open>Opcode parser (\<open>TranslationDb.parse_script_cmds\<close>)\<close>

text \<open>
  \<open>TranslationDb.parse_script_cmds\<close> is missing from the sources; every definition of this
  section is modelled from spec 4.1 and 7, with the concrete syntax of the five parser tests
  of \<open>tests/test_translation_db.py\<close>: commands end in \<open>;\<close>, a text-block command is \<open>_ZM\<close>, a
  label and an operand list in parentheses, the forced-newline separator is \<open>^\<close>, an offset
  reference is \<open>$\<close> and decimal digits, a modifier tag is \<open>@\<close> and a name, and the
  message-start command is \<open>_MSAD\<close> with one offset reference. The page number is assigned
  by the scene walk, not by the parser; it is \<open>0\<close> here as in the tests.
\<close>

text \<open>
  Modelled from the spec: the errors of the absent parser. Spec 4.1 and 7: unknown offsets
  are a hard parse error (\<open>UnresolvedOffsetError\<close>), and malformed opcode syntax is fatal for
  the parse call.
\<close>

datatype parse_error = UnresolvedOffsetError nat | MalformedOpcode pystr

text \<open>\<open>s.startswith(prefix)\<close>\<close>

definition py_startswith :: "pystr \<Rightarrow> pystr \<Rightarrow> bool" where
  "py_startswith s pre \<longleftrightarrow> take (length pre) s = pre"

text \<open>
  Modelled from the spec: the reading of modifier tags is missing from the sources. A run of
  tags such as \<open>@k@e\<close> (spec 4.1: ``one or more post-modifier tags'') is empty, or tags that
  each start with \<open>@\<close> (code point 64). \<open>None\<close> when the text does not start with \<open>@\<close>.
\<close>

definition modifier_tags :: "pystr \<Rightarrow> pystr list option" where
  "modifier_tags s =
     (case py_split 64 s of
        [] \<Rightarrow> None
      | first # names \<Rightarrow> if first = [] then Some (map (\<lambda>name. 64 # name) names) else None)"

text \<open>
  Modelled from the spec: an operand of the absent parser. Spec 4.1: ``each operand is an
  offset reference optionally preceded by a pre-modifier tag and/or followed by one or
  more post-modifier tags''. After a dangling separator there is no offset reference.
\<close>

record operand =
  pre_modifiers :: "pystr list"
  op_offset :: "nat option"
  post_modifiers :: "pystr list"

text \<open>
  Modelled from the spec: the reading of one operand between separators (spec 4.1):
  pre-modifiers, then possibly an offset reference (\<open>$\<close>, code point 36, and the
  ``zero-padded decimal index''), then post-modifiers. Without a \<open>$\<close> the operand holds only
  modifiers and produces no reference.
\<close>

definition parse_operand :: "pystr \<Rightarrow> operand option" where
  "parse_operand piece =
     (let lead = takeWhile (\<lambda>c. c \<noteq> 36) piece;
          from_dollar = dropWhile (\<lambda>c. c \<noteq> 36) piece
      in case from_dollar of
           [] \<Rightarrow> map_option (\<lambda>tags. \<lparr>pre_modifiers = [], op_offset = None, post_modifiers = tags\<rparr>)
                   (modifier_tags lead)
         | _ # after_dollar \<Rightarrow>
             (let digits = takeWhile is_decimal after_dollar;
                  trailing = dropWhile is_decimal after_dollar
              in if digits = [] then None
                 else case (modifier_tags lead, modifier_tags trailing) of
                        (Some pre, Some post) \<Rightarrow>
                          Some \<lparr>pre_modifiers = pre, op_offset = Some (nat (py_int digits)),
                                post_modifiers = post\<rparr>
                      | _ \<Rightarrow> None))"

text \<open>
  Modelled from the spec: the commands of the absent parser. Spec 4.1: ``two command
  families carry text references (others are passed through untouched and produce no
  reference)''.
\<close>

datatype command = Text_block "pystr list" | Message_start pystr | Unrecognized

text \<open>
  Modelled from the spec: the recognition of a command (spec 4.1), with the tags of the
  parser tests: \<open>_MSAD(\<close> and \<open>)\<close> around one operand, or \<open>_ZM\<close>, a label, and \<open>(\<close> (code
  point 40) and \<open>)\<close> around operands that the separator \<open>^\<close> (code point 94) divides.
\<close>

definition classify :: "pystr \<Rightarrow> command" where
  "classify cmd =
     (if py_startswith cmd (pystr ''_MSAD('') \<and> py_endswith cmd (pystr '')'')
      then Message_start (butlast (drop 6 cmd))
      else if py_startswith cmd (pystr ''_ZM'') \<and> py_endswith cmd (pystr '')'') \<and> 40 \<in> set cmd
      then Text_block (py_split 94 (butlast (tl (dropWhile (\<lambda>c. c \<noteq> 40) cmd))))
      else Unrecognized)"

text \<open>
  Modelled from the spec: what the absent parser remembers from the command before (spec
  4.1, message-start command): nothing, or that it was a text-block command, and whether
  that one ended in a dangling forced-newline separator.
\<close>

datatype previous = No_text_block | After_text_block bool

text \<open>
  Modelled from the spec: spec 4.1: ``offsets resolve to \<open>content_hash\<close> via the supplied
  lookup; unknown offsets are a hard parse error''.
\<close>

definition resolve_offset :: "(nat \<Rightarrow> pystr option) \<Rightarrow> nat \<Rightarrow> parse_error + pystr" where
  "resolve_offset content_hash_by_offset off =
     (case content_hash_by_offset off of None \<Rightarrow> Inl (UnresolvedOffsetError off) | Some h \<Rightarrow> Inr h)"

text \<open>
  Modelled from the spec: the references of the operands of one text-block command (spec
  4.1). \<open>shared\<close> are the post-modifiers that trail the last operand; they ``apply identically
  to every operand split out of that group''. An operand followed by a separator has a
  forced newline; a pre-modifier ``marks that occurrence as glued''.
\<close>

fun operand_refs ::
    "(nat \<Rightarrow> pystr option) \<Rightarrow> pystr list \<Rightarrow> operand list \<Rightarrow> parse_error + text_command list" where
  "operand_refs lookup shared [] = Inr []"
| "operand_refs lookup shared (opd # later) =
     (case operand_refs lookup shared later of
        Inl e \<Rightarrow> Inl e
      | Inr refs \<Rightarrow>
          (case op_offset opd of
             None \<Rightarrow> Inr refs
           | Some off \<Rightarrow>
               (case resolve_offset lookup off of
                  Inl e \<Rightarrow> Inl e
                | Inr h \<Rightarrow>
                    Inr (\<lparr>offset = off, jp_hash = h, page_number = 0,
                          modifiers = pre_modifiers opd @ post_modifiers opd
                                        @ (if later = [] then [] else shared),
                          has_forced_newline = (later \<noteq> []),
                          is_glued = (pre_modifiers opd \<noteq> [])\<rparr> # refs))))"

text \<open>
  Modelled from the spec: the operands of a text-block command; one operand that cannot be
  read makes the command malformed (spec 7).
\<close>

definition all_operands :: "pystr list \<Rightarrow> operand list option" where
  "all_operands pieces =
     (if \<forall>p \<in> set pieces. parse_operand p \<noteq> None
      then Some (map (\<lambda>p. the (parse_operand p)) pieces) else None)"

text \<open>
  Modelled from the spec: spec 4.1: the separator dangles when it ``appears with no
  following offset before the closing parenthesis'', that is when the last of several
  operands holds no offset reference.
\<close>

definition dangling :: "operand list \<Rightarrow> bool" where
  "dangling ops \<longleftrightarrow> 2 \<le> length ops \<and> op_offset (last ops) = None"

text \<open>
  Modelled from the spec: one command of the script (spec 4.1): the state for the next
  command and the references it produces. A message-start command is glued when it
  ``immediately follows a text-block command'', except after a dangling separator.
\<close>

definition parse_cmd ::
    "(nat \<Rightarrow> pystr option) \<Rightarrow> previous \<Rightarrow> pystr \<Rightarrow> parse_error + previous \<times> text_command list" where
  "parse_cmd lookup prev cmd =
     (case classify cmd of
        Unrecognized \<Rightarrow> Inr (No_text_block, [])
      | Message_start arg \<Rightarrow>
          (case parse_operand arg of
             None \<Rightarrow> Inl (MalformedOpcode cmd)
           | Some opd \<Rightarrow>
               (case op_offset opd of
                  None \<Rightarrow> Inl (MalformedOpcode cmd)
                | Some off \<Rightarrow>
                    (case resolve_offset lookup off of
                       Inl e \<Rightarrow> Inl e
                     | Inr h \<Rightarrow>
                         Inr (No_text_block,
                              [\<lparr>offset = off, jp_hash = h, page_number = 0,
                                 modifiers = pre_modifiers opd @ post_modifiers opd,
                                 has_forced_newline = False,
                                 is_glued = (prev = After_text_block False)\<rparr>]))))
      | Text_block pieces \<Rightarrow>
          (case all_operands pieces of
             None \<Rightarrow> Inl (MalformedOpcode cmd)
           | Some ops \<Rightarrow>
               (case operand_refs lookup (post_modifiers (last ops)) ops of
                  Inl e \<Rightarrow> Inl e
                | Inr refs \<Rightarrow> Inr (After_text_block (dangling ops), refs))))"

text \<open>
  Modelled from the spec: the commands in order (spec 4.1: ``ordered sequence of
  \<open>TextReference\<close>''); the first error ends the parse (spec 7).
\<close>

fun parse_cmds ::
    "(nat \<Rightarrow> pystr option) \<Rightarrow> previous \<Rightarrow> pystr list \<Rightarrow> parse_error + text_command list" where
  "parse_cmds lookup prev [] = Inr []"
| "parse_cmds lookup prev (cmd # cmds) =
     (case parse_cmd lookup prev cmd of
        Inl e \<Rightarrow> Inl e
      | Inr (prev', refs) \<Rightarrow>
          (case parse_cmds lookup prev' cmds of
             Inl e \<Rightarrow> Inl e
           | Inr later_refs \<Rightarrow> Inr (refs @ later_refs)))"

text \<open>
  Modelled from the spec: \<open>TranslationDb.parse_script_cmds\<close> is missing from the sources. Spec
  4.1: ``the opcode stream is a sequence of commands terminated by \<open>;\<close>'' (code point 59).
  Of the two lookups that the tests pass, only the one from offset to content hash decides
  the references.
\<close>

definition parse_script_cmds :: "(nat \<Rightarrow> pystr option) \<Rightarrow> pystr \<Rightarrow> parse_error + text_command list" where
  "parse_script_cmds content_hash_by_offset script =
     parse_cmds content_hash_by_offset No_text_block (py_split 59 script)"

text \<open>\<open>TC(offset, HASH, 0, modifiers, has_forced_newline, is_glued)\<close> of the parser tests.\<close>

definition TC :: "nat \<Rightarrow> pystr \<Rightarrow> pystr list \<Rightarrow> bool \<Rightarrow> bool \<Rightarrow> text_command" where
  "TC off h mods forced glued =
     \<lparr>offset = off, jp_hash = h, page_number = 0, modifiers = mods,
      has_forced_newline = forced, is_glued = glued\<rparr>"










section \<open>Properties of the scene-name comparison\<close>

lemma compare_fragment_refl: "compare_fragment a a = None"
  by (cases a) simp_all

lemma type_name_int_less_str: "type_name (FInt x) < type_name (FStr y)"
  by simp

lemma compare_fragment_flip:
  "compare_fragment b a = map_option uminus (compare_fragment a b)"
  by (cases a; cases b) auto

lemma compare_fragments_refl: "compare_fragments xs xs = 0"
  by (induction xs) (simp_all add: compare_fragment_refl)

lemma compare_fragments_flip: "compare_fragments ys xs = - compare_fragments xs ys"
proof (induction xs ys rule: compare_fragments.induct)
  case (4 a as b bs)
  then show ?case
    by (cases "compare_fragment a b") (simp_all add: compare_fragment_flip [of b a])
qed simp_all

lemma compare_fragments_common_prefix:
  "compare_fragments (ts @ xs) (ts @ ys) = compare_fragments xs ys"
  by (induction ts) (simp_all add: compare_fragment_refl)

lemma de_step_ret_prefix:
  "de_step (r0 @ ret, is_chr, acc) c =
     (case de_step (ret, is_chr, acc) c of (r, st) \<Rightarrow> (r0 @ r, st))"
  by simp

lemma de_run_ret_prefix:
  "foldl de_step (r0 @ ret, is_chr, acc) cs =
     (case foldl de_step (ret, is_chr, acc) cs of (r, st) \<Rightarrow> (r0 @ r, st))"
proof (induction cs arbitrary: ret is_chr acc)
  case Nil
  show ?case by simp
next
  case (Cons c cs)
  obtain r' i' a' where step: "de_step (ret, is_chr, acc) c = (r', i', a')"
    by (cases "de_step (ret, is_chr, acc) c") auto
  have "de_step (r0 @ ret, is_chr, acc) c = (r0 @ r', i', a')"
    using step by (simp only: de_step_ret_prefix split: prod.splits) simp
  then show ?case
    using step Cons.IH [of r' i' a'] by simp
qed

lemma de_run_decimals:
  "\<forall>c \<in> set ds. is_decimal c \<Longrightarrow> acc \<noteq> [] \<Longrightarrow>
     foldl de_step (ret, False, acc) ds = (ret, False, acc @ ds)"
  by (induction ds arbitrary: acc) simp_all

lemma de_run_ends_chr:
  "p \<noteq> [] \<Longrightarrow> \<not> is_decimal (last p) \<Longrightarrow> \<exists>ret acc. foldl de_step st p = (ret, True, acc) \<and> acc \<noteq> []"
proof (induction p rule: rev_induct)
  case Nil
  then show ?case by simp
next
  case (snoc c p)
  obtain r i a where "foldl de_step st p = (r, i, a)"
    by (cases "foldl de_step st p") auto
  with snoc.prems show ?case by simp
qed

lemma decimal_extract_run:
  assumes ds: "ds \<noteq> []" "\<forall>c \<in> set ds. is_decimal c"
    and p: "p = [] \<or> \<not> is_decimal (last p)"
    and s: "s = [] \<or> \<not> is_decimal (hd s)"
  shows "decimal_extract (p @ ds @ s) = decimal_extract p @ [FInt (py_int ds)] @ decimal_extract s"
proof -
  obtain d ds' where dsc: "ds = d # ds'" using ds(1) by (cases ds) auto
  have dd: "is_decimal d" "\<forall>c \<in> set ds'. is_decimal c" using ds(2) dsc by auto
  \<comment> \<open>the state after the prefix: in character mode, its pending string flushed by \<open>d\<close>\<close>
  have after_p: "foldl de_step ([], True, []) (p @ [d]) = (decimal_extract p, False, [d])"
  proof (cases "p = []")
    case True
    then show ?thesis using dd(1) by (simp add: decimal_extract_def)
  next
    case False
    with p de_run_ends_chr [of p "([], True, [])"]
    obtain r a where ra: "foldl de_step ([], True, []) p = (r, True, a)" "a \<noteq> []" by auto
    then show ?thesis using dd(1) by (simp add: decimal_extract_def)
  qed
  have after_ds: "foldl de_step ([], True, []) (p @ ds) = (decimal_extract p, False, ds)"
    using after_p de_run_decimals [OF dd(2), of "[d]" "decimal_extract p"] dsc by simp
  show ?thesis
  proof (cases s)
    case Nil
    then show ?thesis using after_ds ds(1) by (simp add: decimal_extract_def)
  next
    case (Cons c s')
    then have c: "\<not> is_decimal c" using s by simp
    have "foldl de_step ([], True, []) (p @ ds @ s) =
            foldl de_step (decimal_extract p @ [FInt (py_int ds)] @ [], True, [c]) s'"
    proof -
      have "foldl de_step ([], True, []) (p @ ds @ s) =
              foldl de_step (foldl de_step ([], True, []) (p @ ds)) s"
        by (simp only: foldl_append append_assoc [symmetric])
      then show ?thesis using after_ds c ds(1) Cons by simp
    qed
    also have "\<dots> = (case foldl de_step ([], True, [c]) s' of
                      (r, st) \<Rightarrow> ((decimal_extract p @ [FInt (py_int ds)]) @ r, st))"
      using de_run_ret_prefix [of "decimal_extract p @ [FInt (py_int ds)]" "[]" True "[c]" s'] by simp
    finally have run: "foldl de_step ([], True, []) (p @ ds @ s) =
       (case foldl de_step ([], True, [c]) s' of
                      (r, st) \<Rightarrow> ((decimal_extract p @ [FInt (py_int ds)]) @ r, st))" .
    have s_run: "foldl de_step ([], True, []) s = foldl de_step ([], True, [c]) s'"
      using Cons c by simp
    obtain r i a where ria: "foldl de_step ([], True, [c]) s' = (r, i, a)"
      by (cases "foldl de_step ([], True, [c]) s'") auto
    show ?thesis
      unfolding decimal_extract_def [of "p @ ds @ s"] decimal_extract_def [of s] run s_run ria
      by simp
  qed
qed

lemma compare_fragments_run:
  "compare_fragments (ts @ [FInt x] @ us) (ts @ [FInt y] @ us) = three_way x y"
  by (simp add: compare_fragments_common_prefix compare_fragments_refl three_way_def)

text \<open>
  Claim C10. \<open>compare_scenes\<close> is a consistent comparison: a name compares equal to itself,
  swapping the arguments negates the result, and two names that differ only in one maximal
  run of decimal digits (the text before the run does not end in a digit, the text after
  it does not start with one) are ordered by the numeric value of that run, so that
  \<open>2\<close> sorts before \<open>10\<close> and zero padding makes no difference.
\<close>

theorem compare_scenes_consistent:
  "compare_scenes a a = 0 \<and>
   compare_scenes a b = - compare_scenes b a \<and>
   (d1 \<noteq> [] \<and> d2 \<noteq> [] \<and> (\<forall>c \<in> set (d1 @ d2). is_decimal c) \<and>
    (p = [] \<or> \<not> is_decimal (last p)) \<and> (s = [] \<or> \<not> is_decimal (hd s)) \<longrightarrow>
      compare_scenes (p @ d1 @ s) (p @ d2 @ s) = three_way (py_int d1) (py_int d2))"
proof (intro conjI impI)
  show "compare_scenes a a = 0"
    by (simp add: compare_scenes_def compare_fragments_refl)
  show "compare_scenes a b = - compare_scenes b a"
    by (simp add: compare_scenes_def compare_fragments_flip [of "decimal_extract b"])
next
  assume h: "d1 \<noteq> [] \<and> d2 \<noteq> [] \<and> (\<forall>c \<in> set (d1 @ d2). is_decimal c) \<and>
    (p = [] \<or> \<not> is_decimal (last p)) \<and> (s = [] \<or> \<not> is_decimal (hd s))"
  then have "decimal_extract (p @ d1 @ s) = decimal_extract p @ [FInt (py_int d1)] @ decimal_extract s"
    and "decimal_extract (p @ d2 @ s) = decimal_extract p @ [FInt (py_int d2)] @ decimal_extract s"
    by (simp_all add: decimal_extract_run)
  then show "compare_scenes (p @ d1 @ s) (p @ d2 @ s) = three_way (py_int d1) (py_int d2)"
    unfolding compare_scenes_def by (simp only: compare_fragments_run)
qed

theorem compare_scenes_consistent_witness:
  "compare_scenes (pystr ''03_ARC_2a'') (pystr ''03_ARC_10a'') = - 1 \<and>
   compare_scenes (pystr ''03_ARC_10a'') (pystr ''03_ARC_2a'') = 1 \<and>
   compare_scenes (pystr ''03_ARC_007a'') (pystr ''03_ARC_7a'') = 0"
proof -
  have hyp: "d \<in> {pystr ''2'', pystr ''10'', pystr ''007'', pystr ''7''} \<Longrightarrow>
      d \<noteq> [] \<and> (\<forall>c \<in> set d. is_decimal c)" for d
    by (auto simp add: pystr_def is_decimal_def)
  have ctx: "\<not> is_decimal (last (pystr ''03_ARC_''))" "\<not> is_decimal (hd (pystr ''a''))"
    by (simp_all add: pystr_def is_decimal_def)
  have vals: "py_int (pystr ''2'') = 2" "py_int (pystr ''10'') = 10"
    "py_int (pystr ''007'') = 7" "py_int (pystr ''7'') = 7"
    by (simp_all add: pystr_def py_int_def)
  have split: "pystr ''03_ARC_2a'' = pystr ''03_ARC_'' @ pystr ''2'' @ pystr ''a''"
    "pystr ''03_ARC_10a'' = pystr ''03_ARC_'' @ pystr ''10'' @ pystr ''a''"
    "pystr ''03_ARC_007a'' = pystr ''03_ARC_'' @ pystr ''007'' @ pystr ''a''"
    "pystr ''03_ARC_7a'' = pystr ''03_ARC_'' @ pystr ''7'' @ pystr ''a''"
    by (simp_all add: pystr_def)
  have run: "compare_scenes (pystr ''03_ARC_2a'') (pystr ''03_ARC_10a'') = - 1"
    using compare_scenes_consistent [where ?d1.0 = "pystr ''2''" and ?d2.0 = "pystr ''10''"
        and p = "pystr ''03_ARC_''" and s = "pystr ''a''" and a = "[]" and b = "[]"]
      hyp [of "pystr ''2''"] hyp [of "pystr ''10''"] ctx
    unfolding split vals three_way_def by (simp add: ball_Un)
  have pad: "compare_scenes (pystr ''03_ARC_007a'') (pystr ''03_ARC_7a'') = 0"
    using compare_scenes_consistent [where ?d1.0 = "pystr ''007''" and ?d2.0 = "pystr ''7''"
        and p = "pystr ''03_ARC_''" and s = "pystr ''a''" and a = "[]" and b = "[]"]
      hyp [of "pystr ''007''"] hyp [of "pystr ''7''"] ctx
    unfolding split vals three_way_def by (simp add: ball_Un)
  have flip: "compare_scenes (pystr ''03_ARC_10a'') (pystr ''03_ARC_2a'') =
                - compare_scenes (pystr ''03_ARC_2a'') (pystr ''03_ARC_10a'')"
    using compare_scenes_consistent [where a = "pystr ''03_ARC_10a''" and b = "pystr ''03_ARC_2a''"
        and ?d1.0 = "[]" and ?d2.0 = "[]" and p = "[]" and s = "[]"]
    by (simp only:)
  from run pad flip show ?thesis by simp
qed

section \<open>Properties of the charswap configuration parser\<close>

lemma charswap_lines_run:
  "foldl charswap_line (m, out) ls =
     (foldl (\<lambda>m l. AList.update (pair_key l) (pair_value l) m) m (filter is_pair_line ls),
      out @ map Invalid_charswap_entry
              (filter (\<lambda>l. l \<noteq> [] \<and> length (py_split 44 l) \<noteq> 2) ls))"
  by (induction ls arbitrary: m out)
     (simp_all add: is_pair_line_def pair_key_def pair_value_def Let_def)

lemma swap_updates_other_key:
  "\<forall>l \<in> set ls. pair_key l \<noteq> k \<Longrightarrow>
     map_of (foldl (\<lambda>m l. AList.update (pair_key l) (pair_value l) m) m ls) k = map_of m k"
  by (induction ls arbitrary: m) (auto simp add: update_conv)

lemma swap_updates_last_wins:
  "\<forall>l' \<in> set post. pair_key l' \<noteq> pair_key l \<Longrightarrow>
     map_of (foldl (\<lambda>m l. AList.update (pair_key l) (pair_value l) m) m (pre @ [l] @ post))
       (pair_key l) = Some (pair_value l)"
  by (simp add: swap_updates_other_key update_conv)

lemma swap_updates_origin:
  "map_of (foldl (\<lambda>m l. AList.update (pair_key l) (pair_value l) m) m ls) k = Some v \<Longrightarrow>
     map_of m k = Some v \<or> (\<exists>l \<in> set ls. k = pair_key l \<and> v = pair_value l)"
proof (induction ls arbitrary: m)
  case Nil
  then show ?case by simp
next
  case (Cons l ls)
  from Cons.IH [of "AList.update (pair_key l) (pair_value l) m"] Cons.prems
  show ?case by (auto simp add: update_conv split: if_splits)
qed

text \<open>
  Claim C9, as stated, asks for a diagnostic for every blank line. The empty second line of
  this text is skipped without one.
\<close>

theorem charswap_blank_line_counterexample:
  "[] \<in> set (py_split 10 (pystr ''a,b\<newline>\<newline>c,d'')) \<and>
   Invalid_charswap_entry [] \<notin> set (snd (parse_charswap (pystr ''a,b\<newline>\<newline>c,d'')))"
  by (simp add: parse_charswap_def pystr_def Let_def)

text \<open>
  Claim C9, amended. Parsing a charswap configuration text returns for every input (the
  model is a total function with no error branch). An empty line is skipped and nothing is
  printed for it; the diagnostics are, in order, exactly the non-empty lines that do not
  split on commas into two fields. The swap map is built by assigning, in order, the stripped
  first field to the stripped second field of each remaining line: such a line decides the
  value of its key unless a later one assigns the same key, and every entry of the map comes
  from such a line.
\<close>

theorem parse_charswap_lines:
  "snd (parse_charswap text) =
     map Invalid_charswap_entry
       (filter (\<lambda>l. l \<noteq> [] \<and> length (py_split 44 l) \<noteq> 2) (py_split 10 text)) \<and>
   fst (parse_charswap text) =
     foldl (\<lambda>m l. AList.update (pair_key l) (pair_value l) m) []
       (filter is_pair_line (py_split 10 text)) \<and>
   (py_split 10 text = pre @ [l] @ post \<and> is_pair_line l \<and>
    (\<forall>l' \<in> set post. is_pair_line l' \<longrightarrow> pair_key l' \<noteq> pair_key l) \<longrightarrow>
      map_of (fst (parse_charswap text)) (pair_key l) = Some (pair_value l)) \<and>
   (map_of (fst (parse_charswap text)) k = Some v \<longrightarrow>
      (\<exists>l \<in> set (py_split 10 text). is_pair_line l \<and> k = pair_key l \<and> v = pair_value l))"
proof (intro conjI impI)
  show "snd (parse_charswap text) =
     map Invalid_charswap_entry
       (filter (\<lambda>l. l \<noteq> [] \<and> length (py_split 44 l) \<noteq> 2) (py_split 10 text))"
    by (simp add: parse_charswap_def charswap_lines_run)
  show m: "fst (parse_charswap text) =
     foldl (\<lambda>m l. AList.update (pair_key l) (pair_value l) m) []
       (filter is_pair_line (py_split 10 text))"
    by (simp add: parse_charswap_def charswap_lines_run)
  {
    assume h: "py_split 10 text = pre @ [l] @ post \<and> is_pair_line l \<and>
      (\<forall>l' \<in> set post. is_pair_line l' \<longrightarrow> pair_key l' \<noteq> pair_key l)"
    then have "filter is_pair_line (py_split 10 text) =
        filter is_pair_line pre @ [l] @ filter is_pair_line post"
      by simp
    moreover have "\<forall>l' \<in> set (filter is_pair_line post). pair_key l' \<noteq> pair_key l"
      using h by simp
    ultimately show "map_of (fst (parse_charswap text)) (pair_key l) = Some (pair_value l)"
      unfolding m
      using swap_updates_last_wins [where post = "filter is_pair_line post" and l = l
          and m = "[]" and pre = "filter is_pair_line pre"]
      by simp
  }
  {
    assume "map_of (fst (parse_charswap text)) k = Some v"
    then show "\<exists>l \<in> set (py_split 10 text). is_pair_line l \<and> k = pair_key l \<and> v = pair_value l"
      unfolding m using swap_updates_origin [of "[]" "filter is_pair_line (py_split 10 text)" k v]
      by auto
  }
qed

theorem parse_charswap_lines_witness:
  "parse_charswap (pystr ''a,b\<newline> c , d \<newline>x\<newline>\<newline>a,z'') =
     ([(pystr ''a'', pystr ''z''), (pystr ''c'', pystr ''d'')], [Invalid_charswap_entry (pystr ''x'')]) \<and>
   map_of (fst (parse_charswap (pystr ''a,b\<newline> c , d \<newline>x\<newline>\<newline>a,z''))) (pystr ''c'') = Some (pystr ''d'')"
proof -
  let ?text = "pystr ''a,b\<newline> c , d \<newline>x\<newline>\<newline>a,z''"
  have lines: "py_split 10 ?text = [pystr ''a,b''] @ [pystr '' c , d ''] @ [pystr ''x'', [], pystr ''a,z'']"
    by (simp add: pystr_def)
  have pair: "is_pair_line (pystr '' c , d '')"
    by (simp add: is_pair_line_def pystr_def)
  have key: "pair_key (pystr '' c , d '') = pystr ''c''" "pair_value (pystr '' c , d '') = pystr ''d''"
    by (simp_all add: pair_key_def pair_value_def py_strip_def is_space_def pystr_def)
  have later: "\<forall>l' \<in> set [pystr ''x'', [], pystr ''a,z'']. is_pair_line l' \<longrightarrow> pair_key l' \<noteq> pair_key (pystr '' c , d '')"
    by (simp add: is_pair_line_def pair_key_def py_strip_def is_space_def pystr_def)
  have hyp: "py_split 10 ?text = [pystr ''a,b''] @ [pystr '' c , d ''] @ [pystr ''x'', [], pystr ''a,z''] \<and>
      is_pair_line (pystr '' c , d '') \<and>
      (\<forall>l' \<in> set [pystr ''x'', [], pystr ''a,z''].
          is_pair_line l' \<longrightarrow> pair_key l' \<noteq> pair_key (pystr '' c , d ''))"
    using lines pair later by (intro conjI)
  have "map_of (fst (parse_charswap ?text)) (pair_key (pystr '' c , d '')) =
          Some (pair_value (pystr '' c , d ''))"
    using parse_charswap_lines [of ?text "[pystr ''a,b'']" "pystr '' c , d ''"
        "[pystr ''x'', [], pystr ''a,z'']" "[]" "[]", THEN conjunct2, THEN conjunct2, THEN conjunct1]
      hyp by (rule mp)
  then have looked_up: "map_of (fst (parse_charswap ?text)) (pystr ''c'') = Some (pystr ''d'')"
    by (simp only: key)
  have parsed: "parse_charswap ?text =
     ([(pystr ''a'', pystr ''z''), (pystr ''c'', pystr ''d'')], [Invalid_charswap_entry (pystr ''x'')])"
    by (simp add: parse_charswap_def pystr_def Let_def py_strip_def is_space_def)
  from parsed looked_up show ?thesis by (intro conjI)
qed

section \<open>Properties of the completion percentages\<close>

lemma scene_count_run:
  "foldl (scene_count_line f) (idx, n) ls =
     (idx + length ls, n + length (filter (line_translated f) ls))"
  by (induction ls arbitrary: idx n) (simp_all add: line_translated_def)

text \<open>
  Claim C8. For a loaded scene, the per-scene completion is 100 times the number of the
  scene's text references whose hash-keyed entry has a translated text, each occurrence
  counted, over the number of occurrences (over 1 for a scene without lines). Two
  occurrences of one hash count twice in both numbers.
\<close>

theorem scene_percent_by_occurrences:
  "truthy loaded_scene \<Longrightarrow> lines_for_scene (the loaded_scene) = scene_lines \<Longrightarrow>
     update_selected_scene_tl_percent lines_for_scene tl_line_with_hash loaded_scene =
       Some (of_nat (100 * length (filter (line_translated tl_line_with_hash) scene_lines))
               / of_nat (max (length scene_lines) 1)) \<and>
     (scene_lines \<noteq> [] \<longrightarrow>
        update_selected_scene_tl_percent lines_for_scene tl_line_with_hash loaded_scene =
          Some (of_nat (100 * length (filter (line_translated tl_line_with_hash) scene_lines))
                  / of_nat (length scene_lines)))"
proof -
  assume a: "truthy loaded_scene" "lines_for_scene (the loaded_scene) = scene_lines"
  have m: "scene_lines \<noteq> [] \<Longrightarrow> max (length scene_lines) 1 = length scene_lines"
    by (cases scene_lines) simp_all
  have "update_selected_scene_tl_percent lines_for_scene tl_line_with_hash loaded_scene =
       Some (of_nat (100 * length (filter (line_translated tl_line_with_hash) scene_lines))
               / of_nat (max (length scene_lines) 1))"
    using a by (simp add: update_selected_scene_tl_percent_def scene_count_run mult.commute)
  then show ?thesis using m by simp
qed


theorem scene_percent_by_occurrences_witness:
  "update_selected_scene_tl_percent
     (\<lambda>name. [\<lparr>offset = 1, jp_hash = pystr ''h1'', page_number = 0, modifiers = [],
                  has_forced_newline = False, is_glued = False\<rparr>,
               \<lparr>offset = 2, jp_hash = pystr ''h1'', page_number = 0, modifiers = [],
                  has_forced_newline = False, is_glued = False\<rparr>,
               \<lparr>offset = 3, jp_hash = pystr ''h2'', page_number = 0, modifiers = [],
                  has_forced_newline = False, is_glued = False\<rparr>])
     (\<lambda>h. \<lparr>jp_text = h, en_text = (if h = pystr ''h1'' then Some (pystr ''Hello'') else None),
             comment = None\<rparr>)
     (Some (pystr ''01_ARC'')) = Some (200 / 3)"
proof -
  let ?lines = "[\<lparr>offset = 1, jp_hash = pystr ''h1'', page_number = 0, modifiers = [],
                  has_forced_newline = False, is_glued = False\<rparr>,
               \<lparr>offset = 2, jp_hash = pystr ''h1'', page_number = 0, modifiers = [],
                  has_forced_newline = False, is_glued = False\<rparr>,
               \<lparr>offset = 3, jp_hash = pystr ''h2'', page_number = 0, modifiers = [],
                  has_forced_newline = False, is_glued = False\<rparr>]"
  let ?tl = "\<lambda>h. \<lparr>jp_text = h, en_text = (if h = pystr ''h1'' then Some (pystr ''Hello'') else None),
             comment = None\<rparr>"
  have loaded: "truthy (Some (pystr ''01_ARC''))"
    by (simp add: pystr_def)
  have n: "length (filter (line_translated ?tl) ?lines) = 2"
    by (simp add: line_translated_def pystr_def)
  have "update_selected_scene_tl_percent (\<lambda>name. ?lines) ?tl (Some (pystr ''01_ARC'')) =
          Some (of_nat (100 * length (filter (line_translated ?tl) ?lines))
                  / of_nat (length ?lines))"
    using scene_percent_by_occurrences [OF loaded, of "\<lambda>name. ?lines" ?lines ?tl] by simp
  then show ?thesis unfolding n by simp
qed

lemma translated_count_le: "length (filter P xs) \<le> length xs"
  by simp

lemma map_entry_length: "length (AList.map_entry k f al) = length al"
  by (induction al) auto

lemma map_entry_translated_mono:
  "truthy text \<Longrightarrow>
     length (filter (\<lambda>(h, l). truthy (en_text l)) al)
       \<le> length (filter (\<lambda>(h, l). truthy (en_text l))
                   (AList.map_entry k (\<lambda>l. l\<lparr>en_text := text, comment := cmt\<rparr>) al))"
  by (induction al) auto

lemma distinct_keys_card: "distinct (map fst al) \<Longrightarrow> card (fst ` set al) = length al"
  by (metis distinct_card length_map set_map)

lemma distinct_keys_filter_card:
  "distinct (map fst al) \<Longrightarrow>
     card {h \<in> fst ` set al. P (the (map_of al h))} = length (filter (\<lambda>(h, l). P l) al)"
proof (induction al)
  case Nil
  show ?case by simp
next
  case (Cons x al)
  obtain h l where x: "x = (h, l)" by (cases x)
  from Cons.prems x have fresh: "h \<notin> fst ` set al" and d: "distinct (map fst al)" by auto
  have rest: "{k \<in> fst ` set al. P (the (map_of ((h, l) # al) k))} =
              {k \<in> fst ` set al. P (the (map_of al k))}"
    using fresh by auto
  have split: "{k \<in> fst ` set (x # al). P (the (map_of (x # al) k))} =
      (if P l then {h} else {}) \<union> {k \<in> fst ` set al. P (the (map_of al k))}"
    using fresh unfolding x by auto
  have fin: "finite {k \<in> fst ` set al. P (the (map_of al k))}" by simp
  have notin: "h \<notin> {k \<in> fst ` set al. P (the (map_of al k))}" using fresh by simp
  show ?case unfolding split using Cons.IH [OF d] fin notin by (simp add: x)
qed

text \<open>
  Claim C7. \<open>translated_percent\<close> never exceeds 100; it does not decrease when a non-empty
  translation is set by hash, and an offset override does not change it; it is 100 times the
  number of distinct hashes whose entry has a non-empty translated text over the number of
  distinct hashes; and it does not depend on the scenes, that is on how often a hash occurs.
\<close>

theorem translated_percent_properties:
  "translated_percent db \<le> 100 \<and>
   (truthy text \<longrightarrow>
      translated_percent db \<le> translated_percent (set_translation_and_comment_for_hash h text cmt db)) \<and>
   translated_percent (override_translation_and_comment_for_offset off text cmt db) = translated_percent db \<and>
   (distinct (map fst (line_by_hash db)) \<longrightarrow>
      translated_percent db =
        100 * of_nat (card {k \<in> fst ` set (line_by_hash db).
                              truthy (en_text (the (map_of (line_by_hash db) k)))})
          / of_nat (card (fst ` set (line_by_hash db)))) \<and>
   translated_percent (db\<lparr>scene_map := scenes\<rparr>) = translated_percent db"
proof (intro conjI impI)
  let ?n = "length (filter (\<lambda>(h, l). truthy (en_text l)) (line_by_hash db))"
  let ?d = "length (line_by_hash db)"
  have "(of_nat ?n :: rat) \<le> of_nat ?d"
    using translated_count_le [of _ "line_by_hash db"] by (simp only: of_nat_le_iff)
  then have "(of_nat ?n :: rat) / of_nat ?d \<le> 1"
    by (cases "?d = 0") (simp_all add: divide_le_eq_1)
  then show "translated_percent db \<le> 100"
    by (simp add: translated_percent_def)
next
  assume t: "truthy text"
  let ?al = "line_by_hash db"
  let ?al' = "AList.map_entry h (\<lambda>l. l\<lparr>en_text := text, comment := cmt\<rparr>) ?al"
  have "(of_nat (length (filter (\<lambda>(h, l). truthy (en_text l)) ?al)) :: rat)
          \<le> of_nat (length (filter (\<lambda>(h, l). truthy (en_text l)) ?al'))"
    using map_entry_translated_mono [OF t, of ?al h cmt] by (simp only: of_nat_le_iff)
  then show "translated_percent db
      \<le> translated_percent (set_translation_and_comment_for_hash h text cmt db)"
    by (simp add: translated_percent_def set_translation_and_comment_for_hash_def
        map_entry_length divide_right_mono)
next
  show "translated_percent (override_translation_and_comment_for_offset off text cmt db) =
      translated_percent db"
    by (simp add: translated_percent_def override_translation_and_comment_for_offset_def)
next
  assume d: "distinct (map fst (line_by_hash db))"
  show "translated_percent db =
        100 * of_nat (card {k \<in> fst ` set (line_by_hash db).
                              truthy (en_text (the (map_of (line_by_hash db) k)))})
          / of_nat (card (fst ` set (line_by_hash db)))"
    unfolding translated_percent_def
    by (simp only: distinct_keys_card [OF d]
        distinct_keys_filter_card [OF d, of "\<lambda>l. truthy (en_text l)"])
next
  show "translated_percent (db\<lparr>scene_map := scenes\<rparr>) = translated_percent db"
    by (simp add: translated_percent_def)
qed


theorem translated_percent_properties_witness:
  "translated_percent
     \<lparr>scene_map = [],
      line_by_hash = [(pystr ''h1'', \<lparr>jp_text = pystr ''a'', en_text = Some (pystr ''A''), comment = None\<rparr>),
                      (pystr ''h2'', \<lparr>jp_text = pystr ''b'', en_text = None, comment = None\<rparr>)],
      overrides_by_offset = []\<rparr> = 50 \<and>
   (50 :: rat) \<le> translated_percent
     (set_translation_and_comment_for_hash (pystr ''h2'') (Some (pystr ''B'')) None
       \<lparr>scene_map = [],
        line_by_hash = [(pystr ''h1'', \<lparr>jp_text = pystr ''a'', en_text = Some (pystr ''A''), comment = None\<rparr>),
                        (pystr ''h2'', \<lparr>jp_text = pystr ''b'', en_text = None, comment = None\<rparr>)],
        overrides_by_offset = []\<rparr>)"
proof -
  let ?db = "\<lparr>scene_map = [],
      line_by_hash = [(pystr ''h1'', \<lparr>jp_text = pystr ''a'', en_text = Some (pystr ''A''), comment = None\<rparr>),
                      (pystr ''h2'', \<lparr>jp_text = pystr ''b'', en_text = None, comment = None\<rparr>)],
      overrides_by_offset = []\<rparr>"
  note props = translated_percent_properties [of ?db "Some (pystr ''B'')" "pystr ''h2''" None 0 "[]"]
  have keys: "distinct (map fst (line_by_hash ?db))"
    by (simp add: pystr_def)
  have nonempty: "truthy (Some (pystr ''B''))"
    by (simp add: pystr_def)
  have translated: "{k \<in> fst ` set (line_by_hash ?db). truthy (en_text (the (map_of (line_by_hash ?db) k)))}
                      = {pystr ''h1''}"
    by (auto simp add: pystr_def)
  have "translated_percent ?db =
        100 * of_nat (card {k \<in> fst ` set (line_by_hash ?db).
                              truthy (en_text (the (map_of (line_by_hash ?db) k)))})
          / of_nat (card (fst ` set (line_by_hash ?db)))"
    using props [THEN conjunct2, THEN conjunct2, THEN conjunct2, THEN conjunct1] keys by (rule mp)
  then have half: "translated_percent ?db = 50"
    unfolding translated by (simp add: pystr_def)
  have "translated_percent ?db
          \<le> translated_percent (set_translation_and_comment_for_hash (pystr ''h2'') (Some (pystr ''B'')) None ?db)"
    using props [THEN conjunct2, THEN conjunct1] nonempty by (rule mp)
  with half show ?thesis by simp
qed

section \<open>Properties of the conflict resolution\<close>

lemma commit_unselected_in_range:
  "\<forall>j \<in> set js. j < length es \<Longrightarrow>
     commit_unselected sha es sel js db =
       Inr (foldl (unselected_step sha es) db (filter (\<lambda>j. j \<notin> set sel) js))"
  by (induction js arbitrary: db) (simp_all add: unselected_step_def Let_def)

lemma commit_selected_in_range:
  "\<forall>k \<in> set ks. k < length es \<Longrightarrow>
     commit_selected es ks db = Inr (foldl (selected_step es) db ks)"
  by (induction ks arbitrary: db) (simp_all add: selected_step_def Let_def)

lemma delete_override_lookup:
  "map_of (overrides_by_offset (delete_override off db)) =
     (map_of (overrides_by_offset db))(off := None)"
proof (cases "off \<in> fst ` set (overrides_by_offset db)")
  case True
  then show ?thesis by (simp add: delete_override_def delete_conv')
next
  case False
  then have "map_of (overrides_by_offset db) off = None"
    by (simp add: map_of_eq_None_iff)
  with False show ?thesis by (auto simp add: delete_override_def)
qed

lemma delete_override_lines: "line_by_hash (delete_override off db) = line_by_hash db"
  by (simp add: delete_override_def)

lemma unselected_step_lines:
  "map_of (line_by_hash (unselected_step sha es db j)) h =
     (if h = sha then map_option (committed_by_hash (es ! j)) (map_of (line_by_hash db) h)
      else map_of (line_by_hash db) h)"
  by (cases "map_of (line_by_hash db) sha")
     (simp_all add: unselected_step_def delete_override_lines
        set_translation_and_comment_for_hash_def map_of_map_entry committed_by_hash_def)

lemma unselected_step_overrides:
  "map_of (overrides_by_offset (unselected_step sha es db j)) =
     (map_of (overrides_by_offset db))(entry_offset (es ! j) := None)"
  by (simp add: unselected_step_def delete_override_lookup set_translation_and_comment_for_hash_def)

lemma selected_step_lines: "line_by_hash (selected_step es db k) = line_by_hash db"
  by (simp add: selected_step_def override_translation_and_comment_for_offset_def)

lemma selected_step_overrides:
  "map_of (overrides_by_offset (selected_step es db k)) =
     (map_of (overrides_by_offset db))(entry_offset (es ! k) \<mapsto> override_of (es ! k))"
  by (simp add: selected_step_def override_translation_and_comment_for_offset_def
      update_conv' override_of_def)

lemma committed_twice: "committed_by_hash e2 (committed_by_hash e1 l) = committed_by_hash e2 l"
  by (simp add: committed_by_hash_def)

lemma unselected_run_lines:
  "map_of (line_by_hash (foldl (unselected_step sha es) db js)) h =
     (if h = sha \<and> js \<noteq> [] then map_option (committed_by_hash (es ! last js)) (map_of (line_by_hash db) h)
      else map_of (line_by_hash db) h)"
proof (induction js rule: rev_induct)
  case Nil
  show ?case by simp
next
  case (snoc j js)
  show ?case
  proof (cases "h = sha")
    case True
    show ?thesis
      unfolding True
      by (cases "map_of (line_by_hash db) sha")
         (simp_all add: unselected_step_lines snoc.IH [unfolded True] committed_twice)
  next
    case False
    then show ?thesis by (simp add: unselected_step_lines snoc.IH)
  qed
qed

lemma unselected_run_overrides:
  "\<forall>j \<in> set js. entry_offset (es ! j) \<noteq> off \<Longrightarrow>
     map_of (overrides_by_offset (foldl (unselected_step sha es) db js)) off =
       map_of (overrides_by_offset db) off"
  by (induction js rule: rev_induct) (simp_all add: unselected_step_overrides)

lemma selected_run_lines: "line_by_hash (foldl (selected_step es) db ks) = line_by_hash db"
  by (induction ks rule: rev_induct) (simp_all add: selected_step_lines)

lemma selected_run_overrides_other:
  "\<forall>k \<in> set ks. entry_offset (es ! k) \<noteq> off \<Longrightarrow>
     map_of (overrides_by_offset (foldl (selected_step es) db ks)) off =
       map_of (overrides_by_offset db) off"
  by (induction ks rule: rev_induct) (simp_all add: selected_step_overrides)

lemma selected_run_overrides_last:
  "\<forall>k' \<in> set post. entry_offset (es ! k') \<noteq> entry_offset (es ! k) \<Longrightarrow>
     map_of (overrides_by_offset (foldl (selected_step es) db (pre @ [k] @ post)))
       (entry_offset (es ! k)) = Some (override_of (es ! k))"
  by (simp add: selected_run_overrides_other selected_step_overrides)


lemma commit_group_in_range:
  "lb_size lb = length es \<Longrightarrow> \<forall>k \<in> set (curselection lb). k < length es \<Longrightarrow>
     commit_group sha es lb db = Inr (group_committed sha es lb db)"
  by (simp add: commit_group_def group_committed_def commit_unselected_in_range
      commit_selected_in_range Let_def)

lemma group_committed_other_hash:
  "h \<noteq> sha \<Longrightarrow> map_of (line_by_hash (group_committed sha es lb db)) h = map_of (line_by_hash db) h"
  by (simp add: group_committed_def selected_run_lines unselected_run_lines)

lemma group_committed_other_offset:
  assumes "lb_size lb = length es" and "\<forall>k \<in> set (curselection lb). k < length es"
    and "off \<notin> entry_offset ` set es"
  shows "map_of (overrides_by_offset (group_committed sha es lb db)) off =
           map_of (overrides_by_offset db) off"
proof -
  have a: "\<forall>k \<in> set (curselection lb). entry_offset (es ! k) \<noteq> off"
    using assms(2,3) by (metis image_eqI nth_mem)
  have b: "\<forall>j \<in> set (filter (\<lambda>j. j \<notin> set (curselection lb)) [0..<lb_size lb]).
             entry_offset (es ! j) \<noteq> off"
    using assms(1,3) by (auto simp add: image_iff)
  show ?thesis
    by (simp add: group_committed_def selected_run_overrides_other [OF a]
        unselected_run_overrides [OF b])
qed

lemma group_committed_lines:
  "curselection lb \<noteq> [] \<Longrightarrow>
     map_of (line_by_hash (group_committed sha es lb db)) sha =
       (let unselected = filter (\<lambda>j. j \<notin> set (curselection lb)) [0..<lb_size lb] in
        if unselected = [] then map_of (line_by_hash db) sha
        else map_option (committed_by_hash (es ! last unselected)) (map_of (line_by_hash db) sha))"
  by (simp add: group_committed_def selected_run_lines unselected_run_lines Let_def)

lemma group_committed_override:
  "curselection lb = pre @ [k] @ post \<Longrightarrow>
   \<forall>k' \<in> set post. entry_offset (es ! k') \<noteq> entry_offset (es ! k) \<Longrightarrow>
     map_of (overrides_by_offset (group_committed sha es lb db)) (entry_offset (es ! k)) =
       Some (override_of (es ! k))"
  using selected_run_overrides_last [of post es k _ pre]
  by (simp add: group_committed_def)

lemma commit_groups_in_range:
  "\<forall>i \<in> set is. row_shown ac hs lbs i \<Longrightarrow>
     commit_groups ac hs lbs is db =
       Inr (foldl (\<lambda>db i. group_committed (hs ! i) (the (map_of ac (hs ! i))) (lbs ! i) db) db is)"
proof (induction "is" arbitrary: db)
  case Nil
  show ?case by simp
next
  case (Cons i rest)
  from Cons.prems have r: "row_shown ac hs lbs i" and rs: "\<forall>i \<in> set rest. row_shown ac hs lbs i"
    by simp_all
  from r obtain es where es: "map_of ac (hs ! i) = Some es"
    by (auto simp add: row_shown_def)
  from r es have g: "commit_group (hs ! i) es (lbs ! i) db = Inr (group_committed (hs ! i) es (lbs ! i) db)"
    by (intro commit_group_in_range) (auto simp add: row_shown_def)
  from r have "i < length hs" "i < length lbs" by (simp_all add: row_shown_def)
  then show ?case
    by (simp add: es g Cons.IH [OF rs])
qed

lemma groups_committed_frame:
  assumes "\<forall>i \<in> set is. row_shown ac hs lbs i"
    and "\<forall>i \<in> set is. hs ! i \<noteq> h"
    and "\<forall>i \<in> set is. \<forall>off \<in> offs. off \<notin> entry_offset ` set (the (map_of ac (hs ! i)))"
  shows "map_of (line_by_hash
            (foldl (\<lambda>db i. group_committed (hs ! i) (the (map_of ac (hs ! i))) (lbs ! i) db) db is)) h
           = map_of (line_by_hash db) h \<and>
         (\<forall>off \<in> offs. map_of (overrides_by_offset
            (foldl (\<lambda>db i. group_committed (hs ! i) (the (map_of ac (hs ! i))) (lbs ! i) db) db is)) off
           = map_of (overrides_by_offset db) off)"
  using assms
proof (induction "is" rule: rev_induct)
  case Nil
  show ?case by simp
next
  case (snoc i rest)
  from snoc.prems have r: "row_shown ac hs lbs i" and ne: "hs ! i \<noteq> h"
    and disj: "\<forall>off \<in> offs. off \<notin> entry_offset ` set (the (map_of ac (hs ! i)))"
    by simp_all
  from snoc.prems have IH: "map_of (line_by_hash
            (foldl (\<lambda>db i. group_committed (hs ! i) (the (map_of ac (hs ! i))) (lbs ! i) db) db rest)) h
           = map_of (line_by_hash db) h \<and>
         (\<forall>off \<in> offs. map_of (overrides_by_offset
            (foldl (\<lambda>db i. group_committed (hs ! i) (the (map_of ac (hs ! i))) (lbs ! i) db) db rest)) off
           = map_of (overrides_by_offset db) off)"
    by (intro snoc.IH) simp_all
  from r have size: "lb_size (lbs ! i) = length (the (map_of ac (hs ! i)))"
    and sel: "\<forall>k \<in> set (curselection (lbs ! i)). k < length (the (map_of ac (hs ! i)))"
    by (auto simp add: row_shown_def)
  show ?case
    using IH ne disj
    by (simp add: group_committed_other_hash [OF ne [symmetric]]
        group_committed_other_offset [OF size sel])
qed

lemma upt_split_at: "i < n \<Longrightarrow> [0..<n] = [0..<i] @ [i] @ [Suc i..<n]"
  using upt_add_eq_append [of 0 i "n - i"] by (simp add: upt_conv_Cons)

text \<open>
  Claim C2, as stated, makes each selected entry an offset override. Two candidates of one
  group can name the same offset; when both are selected the second replaces the first.
\<close>

theorem selected_same_offset_counterexample:
  "commit_conflict_resolution
     [(pystr ''h1'',
       [\<lparr>filename = pystr ''a.txt'', line = 1, entry_offset = 5,
          entry_en_text = Some (pystr ''A''), entry_comment = None\<rparr>,
        \<lparr>filename = pystr ''b.txt'', line = 1, entry_offset = 5,
          entry_en_text = Some (pystr ''B''), entry_comment = None\<rparr>])]
     [\<lparr>lb_size = 2, curselection = [0, 1]\<rparr>]
     \<lparr>scene_map = [],
      line_by_hash = [(pystr ''h1'', \<lparr>jp_text = pystr ''jp'', en_text = None, comment = None\<rparr>)],
      overrides_by_offset = []\<rparr>
   = Inr \<lparr>scene_map = [],
          line_by_hash = [(pystr ''h1'', \<lparr>jp_text = pystr ''jp'', en_text = None, comment = None\<rparr>)],
          overrides_by_offset = [(5, \<lparr>ov_en_text = Some (pystr ''B''), ov_comment = None\<rparr>)]\<rparr> \<and>
   map_of [(5 :: nat, \<lparr>ov_en_text = Some (pystr ''B''), ov_comment = None\<rparr>)] 5 \<noteq>
     Some (override_of \<lparr>filename = pystr ''a.txt'', line = 1, entry_offset = 5,
                       entry_en_text = Some (pystr ''A''), entry_comment = None\<rparr>)"
  by (simp add: commit_conflict_resolution_def commit_group_def Let_def pystr_def
      override_translation_and_comment_for_offset_def override_of_def upt_rec)

text \<open>
  Claim C2, amended. For every conflict group of the diff shown in the dialog, the commit
  succeeds and: a group with no selected row is left as it was (its hash-keyed entry and the
  overrides of its offsets are unchanged); in a group with selected rows, a selected entry is
  the override of its offset unless a later selected row names the same offset, and, when
  some rows are not selected, the hash-keyed entry carries the translated text and comment
  of the last row that is not selected.
\<close>

theorem commit_conflict_resolution_group:
  assumes d: "distinct (map fst ac)"
    and shown: "dialog_shown ac lbs"
    and grp: "grouped_by_hash hash_of_offset ac"
    and i: "i < length ac"
    and sha: "sha = sort (map fst ac) ! i"
    and es: "map_of ac sha = Some es"
    and sel: "sel = curselection (lbs ! i)"
  shows "\<exists>db'. commit_conflict_resolution ac lbs db = Inr db' \<and>
     (sel = [] \<longrightarrow>
        map_of (line_by_hash db') sha = map_of (line_by_hash db) sha \<and>
        (\<forall>e \<in> set es. map_of (overrides_by_offset db') (entry_offset e) =
                         map_of (overrides_by_offset db) (entry_offset e))) \<and>
     (sel \<noteq> [] \<longrightarrow>
        (\<forall>pre k post. sel = pre @ [k] @ post \<and>
            (\<forall>k' \<in> set post. entry_offset (es ! k') \<noteq> entry_offset (es ! k)) \<longrightarrow>
            map_of (overrides_by_offset db') (entry_offset (es ! k)) = Some (override_of (es ! k))) \<and>
        map_of (line_by_hash db') sha =
          (let unselected = filter (\<lambda>j. j \<notin> set sel) [0..<length es] in
           if unselected = [] then map_of (line_by_hash db) sha
           else map_option (committed_by_hash (es ! last unselected)) (map_of (line_by_hash db) sha)))"
proof -
  let ?hs = "sort (map fst ac)"
  let ?n = "length ac"
  let ?step = "\<lambda>db i. group_committed (?hs ! i) (the (map_of ac (?hs ! i))) (lbs ! i) db"
  let ?offs = "entry_offset ` set es"
  have len: "length ?hs = ?n" by simp
  have rows: "row_shown ac ?hs lbs j" if "j < ?n" for j
    using shown that by (auto simp add: dialog_shown_def row_shown_def)
  have whole: "commit_conflict_resolution ac lbs db = Inr (foldl ?step db [0..<?n])"
    using commit_groups_in_range [of "[0..<?n]" ac ?hs lbs db] rows
    by (simp add: commit_conflict_resolution_def Let_def)
  have dh: "distinct ?hs" using d by simp
  have other_hash: "?hs ! j \<noteq> sha" if "j < ?n" "j \<noteq> i" for j
    using dh that i sha len by (simp add: nth_eq_iff_index_eq)
  have in_ac: "(sha, es) \<in> set ac" using es by (rule map_of_SomeD)
  have other_offs: "\<forall>off \<in> ?offs. off \<notin> entry_offset ` set (the (map_of ac (?hs ! j)))"
    if j: "j < ?n" "j \<noteq> i" for j
  proof -
    from rows [OF j(1)] obtain esj where esj: "map_of ac (?hs ! j) = Some esj"
      by (auto simp add: row_shown_def)
    then have mem: "(?hs ! j, esj) \<in> set ac" by (rule map_of_SomeD)
    have "entry_offset e \<noteq> entry_offset e'" if "e \<in> set es" "e' \<in> set esj" for e e'
    proof
      assume eq: "entry_offset e = entry_offset e'"
      from grp in_ac that(1) have "hash_of_offset (entry_offset e) = sha"
        by (auto simp add: grouped_by_hash_def)
      moreover from grp mem that(2) have "hash_of_offset (entry_offset e') = ?hs ! j"
        by (auto simp add: grouped_by_hash_def)
      ultimately show False using eq other_hash [OF j] by simp
    qed
    then show ?thesis using esj by auto
  qed
  have the_es: "the (map_of ac (?hs ! i)) = es" using es sha by simp
  have size: "lb_size (lbs ! i) = length es"
    and valid: "\<forall>k \<in> set (curselection (lbs ! i)). k < length es"
    using rows [OF i] the_es by (auto simp add: row_shown_def)
  define db1 where "db1 = foldl ?step db [0..<i]"
  define db2 where "db2 = group_committed sha es (lbs ! i) db1"
  define db' where "db' = foldl ?step db2 [Suc i..<?n]"
  have result: "foldl ?step db [0..<?n] = db'"
    unfolding db'_def db2_def db1_def upt_split_at [OF i]
    by (simp add: the_es sha)
  have pre: "map_of (line_by_hash db1) sha = map_of (line_by_hash db) sha \<and>
             (\<forall>off \<in> ?offs. map_of (overrides_by_offset db1) off = map_of (overrides_by_offset db) off)"
    unfolding db1_def
  proof (rule groups_committed_frame)
    show "\<forall>j \<in> set [0..<i]. row_shown ac ?hs lbs j" using i rows by simp
    show "\<forall>j \<in> set [0..<i]. ?hs ! j \<noteq> sha" using i other_hash by simp
    show "\<forall>j \<in> set [0..<i]. \<forall>off \<in> ?offs.
            off \<notin> entry_offset ` set (the (map_of ac (?hs ! j)))"
      using i other_offs by simp
  qed
  have post: "map_of (line_by_hash db') sha = map_of (line_by_hash db2) sha \<and>
             (\<forall>off \<in> ?offs. map_of (overrides_by_offset db') off = map_of (overrides_by_offset db2) off)"
    unfolding db'_def
  proof (rule groups_committed_frame)
    show "\<forall>j \<in> set [Suc i..<?n]. row_shown ac ?hs lbs j" using rows by simp
    show "\<forall>j \<in> set [Suc i..<?n]. ?hs ! j \<noteq> sha" using other_hash by simp
    show "\<forall>j \<in> set [Suc i..<?n]. \<forall>off \<in> ?offs.
            off \<notin> entry_offset ` set (the (map_of ac (?hs ! j)))"
      using other_offs by simp
  qed
  have skip: "db2 = db1" if "sel = []"
    using that sel by (simp add: db2_def group_committed_def)
  have offs_sel: "entry_offset (es ! k) \<in> ?offs" if "k \<in> set sel" for k
    using that valid sel by simp
  have ov: "map_of (overrides_by_offset db') (entry_offset (es ! k)) = Some (override_of (es ! k))"
    if "sel = pre @ [k] @ post" "\<forall>k' \<in> set post. entry_offset (es ! k') \<noteq> entry_offset (es ! k)"
    for pre k post
  proof -
    have "k \<in> set sel" using that(1) by simp
    then have "map_of (overrides_by_offset db') (entry_offset (es ! k)) =
               map_of (overrides_by_offset db2) (entry_offset (es ! k))"
      using post offs_sel by blast
    also have "\<dots> = Some (override_of (es ! k))"
      unfolding db2_def using that sel by (intro group_committed_override [of _ pre k post]) simp_all
    finally show ?thesis .
  qed
  have lines: "map_of (line_by_hash db') sha =
          (let unselected = filter (\<lambda>j. j \<notin> set sel) [0..<length es] in
           if unselected = [] then map_of (line_by_hash db) sha
           else map_option (committed_by_hash (es ! last unselected)) (map_of (line_by_hash db) sha))"
    if "sel \<noteq> []"
    using that sel post pre group_committed_lines [of "lbs ! i" sha es db1]
    by (simp add: db2_def size Let_def)
  show ?thesis
  proof (intro exI [of _ db'] conjI impI allI)
    show "commit_conflict_resolution ac lbs db = Inr db'" using whole result by simp
    show "map_of (line_by_hash db') sha = map_of (line_by_hash db) sha" if "sel = []"
      using skip [OF that] pre post by simp
    show "\<forall>e \<in> set es. map_of (overrides_by_offset db') (entry_offset e) =
                         map_of (overrides_by_offset db) (entry_offset e)" if "sel = []"
      using skip [OF that] pre post by simp
    show "map_of (overrides_by_offset db') (entry_offset (es ! k)) = Some (override_of (es ! k))"
      if "sel \<noteq> []" "sel = pre @ [k] @ post \<and>
            (\<forall>k' \<in> set post. entry_offset (es ! k') \<noteq> entry_offset (es ! k))" for pre k post
      using ov that(2) by blast
    show "map_of (line_by_hash db') sha =
          (let unselected = filter (\<lambda>j. j \<notin> set sel) [0..<length es] in
           if unselected = [] then map_of (line_by_hash db) sha
           else map_option (committed_by_hash (es ! last unselected)) (map_of (line_by_hash db) sha))"
      if "sel \<noteq> []"
      using lines that by simp
  qed
qed


theorem commit_conflict_resolution_group_witness:
  "\<exists>db'. commit_conflict_resolution
       [(pystr ''h2'',
         [\<lparr>filename = pystr ''a.txt'', line = 3, entry_offset = 7,
            entry_en_text = Some (pystr ''C''), entry_comment = None\<rparr>,
          \<lparr>filename = pystr ''b.txt'', line = 3, entry_offset = 7,
            entry_en_text = Some (pystr ''D''), entry_comment = None\<rparr>]),
        (pystr ''h1'',
         [\<lparr>filename = pystr ''a.txt'', line = 1, entry_offset = 5,
            entry_en_text = Some (pystr ''A''), entry_comment = None\<rparr>,
          \<lparr>filename = pystr ''b.txt'', line = 1, entry_offset = 5,
            entry_en_text = Some (pystr ''B''), entry_comment = Some (pystr ''check'')\<rparr>,
          \<lparr>filename = pystr ''a.txt'', line = 2, entry_offset = 6,
            entry_en_text = Some (pystr ''E''), entry_comment = None\<rparr>])]
       [\<lparr>lb_size = 3, curselection = [0]\<rparr>, \<lparr>lb_size = 2, curselection = []\<rparr>]
       \<lparr>scene_map = [],
        line_by_hash = [(pystr ''h1'', \<lparr>jp_text = pystr ''x'', en_text = None, comment = None\<rparr>),
                        (pystr ''h2'', \<lparr>jp_text = pystr ''y'', en_text = None, comment = None\<rparr>)],
        overrides_by_offset = []\<rparr> = Inr db' \<and>
     map_of (overrides_by_offset db') 5 = Some \<lparr>ov_en_text = Some (pystr ''A''), ov_comment = None\<rparr> \<and>
     map_of (line_by_hash db') (pystr ''h1'') =
       Some \<lparr>jp_text = pystr ''x'', en_text = Some (pystr ''E''), comment = None\<rparr>"
proof -
  let ?g2 = "[\<lparr>filename = pystr ''a.txt'', line = 3, entry_offset = 7,
            entry_en_text = Some (pystr ''C''), entry_comment = None\<rparr>,
          \<lparr>filename = pystr ''b.txt'', line = 3, entry_offset = 7,
            entry_en_text = Some (pystr ''D''), entry_comment = None\<rparr>]"
  let ?g1 = "[\<lparr>filename = pystr ''a.txt'', line = 1, entry_offset = 5,
            entry_en_text = Some (pystr ''A''), entry_comment = None\<rparr>,
          \<lparr>filename = pystr ''b.txt'', line = 1, entry_offset = 5,
            entry_en_text = Some (pystr ''B''), entry_comment = Some (pystr ''check'')\<rparr>,
          \<lparr>filename = pystr ''a.txt'', line = 2, entry_offset = 6,
            entry_en_text = Some (pystr ''E''), entry_comment = None\<rparr>]"
  let ?ac = "[(pystr ''h2'', ?g2), (pystr ''h1'', ?g1)]"
  let ?lbs = "[\<lparr>lb_size = 3, curselection = [0]\<rparr>, \<lparr>lb_size = 2, curselection = []\<rparr>]"
  let ?db = "\<lparr>scene_map = [],
        line_by_hash = [(pystr ''h1'', \<lparr>jp_text = pystr ''x'', en_text = None, comment = None\<rparr>),
                        (pystr ''h2'', \<lparr>jp_text = pystr ''y'', en_text = None, comment = None\<rparr>)],
        overrides_by_offset = []\<rparr>"
  let ?resolve = "\<lambda>off :: nat. if off = 7 then pystr ''h2'' else pystr ''h1''"
  have sorted_keys: "sort (map fst ?ac) = [pystr ''h1'', pystr ''h2'']"
    by (simp add: pystr_def)
  have d: "distinct (map fst ?ac)"
    by (simp add: pystr_def)
  have shown: "dialog_shown ?ac ?lbs"
    unfolding dialog_shown_def sorted_keys
    by (simp add: pystr_def numeral_2_eq_2 less_Suc_eq_0_disj)
  have grp: "grouped_by_hash ?resolve ?ac"
    by (simp add: grouped_by_hash_def pystr_def)
  have i: "(0 :: nat) < length ?ac" by simp
  have sha: "pystr ''h1'' = sort (map fst ?ac) ! 0"
    unfolding sorted_keys by simp
  have es: "map_of ?ac (pystr ''h1'') = Some ?g1"
    by (simp add: pystr_def)
  have sel: "[0 :: nat] = curselection (?lbs ! 0)" by simp
  from commit_conflict_resolution_group [OF d shown grp i sha es sel, of ?db]
  obtain db' where res: "commit_conflict_resolution ?ac ?lbs ?db = Inr db'"
    and ov: "\<forall>pre k post. [0 :: nat] = pre @ [k] @ post \<and>
            (\<forall>k' \<in> set post. entry_offset (?g1 ! k') \<noteq> entry_offset (?g1 ! k)) \<longrightarrow>
            map_of (overrides_by_offset db') (entry_offset (?g1 ! k)) = Some (override_of (?g1 ! k))"
    and ln: "map_of (line_by_hash db') (pystr ''h1'') =
          (let unselected = filter (\<lambda>j. j \<notin> set [0 :: nat]) [0..<length ?g1] in
           if unselected = [] then map_of (line_by_hash ?db) (pystr ''h1'')
           else map_option (committed_by_hash (?g1 ! last unselected))
                  (map_of (line_by_hash ?db) (pystr ''h1'')))"
    by auto
  from ov [rule_format, of "[]" 0 "[]"]
  have ov5: "map_of (overrides_by_offset db') 5 = Some \<lparr>ov_en_text = Some (pystr ''A''), ov_comment = None\<rparr>"
    by (simp add: override_of_def)
  have un: "filter (\<lambda>j. j \<notin> set [0 :: nat]) [0..<length ?g1] = [1, 2]"
    by (simp add: upt_rec)
  have ln1: "map_of (line_by_hash db') (pystr ''h1'') =
       Some \<lparr>jp_text = pystr ''x'', en_text = Some (pystr ''E''), comment = None\<rparr>"
    unfolding ln un by (simp add: committed_by_hash_def pystr_def)
  from res ov5 ln1 show ?thesis by blast
qed

section \<open>Properties of the legacy import\<close>

lemma import_legacy_updates_append:
  "import_legacy_updates ad (xs @ ys) st = import_legacy_updates ad ys (import_legacy_updates ad xs st)"
  by (simp add: import_legacy_updates_def)

lemma import_legacy_updates_printed_irrelevant:
  "ls_store st = ls_store st' \<Longrightarrow> ls_unlinked st = ls_unlinked st' \<Longrightarrow>
     ls_store (import_legacy_updates ad fs st) = ls_store (import_legacy_updates ad fs st') \<and>
     ls_unlinked (import_legacy_updates ad fs st) = ls_unlinked (import_legacy_updates ad fs st')"
proof (induction fs arbitrary: st st')
  case Nil
  then show ?case by (simp add: import_legacy_updates_def)
next
  case (Cons f fs)
  have "ls_store (import_legacy_file ad st f) = ls_store (import_legacy_file ad st' f) \<and>
        ls_unlinked (import_legacy_file ad st f) = ls_unlinked (import_legacy_file ad st' f)"
    using Cons.prems by (simp add: import_legacy_file_def split: sum.splits)
  then show ?case
    using Cons.IH [of "import_legacy_file ad st f" "import_legacy_file ad st' f"]
    by (simp add: import_legacy_updates_def)
qed

lemma import_legacy_updates_printed_kept:
  "set (ls_printed st) \<subseteq> set (ls_printed (import_legacy_updates ad fs st))"
proof (induction fs arbitrary: st)
  case Nil
  show ?case by (simp add: import_legacy_updates_def)
next
  case (Cons f fs)
  have "set (ls_printed st) \<subseteq> set (ls_printed (import_legacy_file ad st f))"
    by (auto simp add: import_legacy_file_def split: sum.splits)
  then show ?case
    using Cons.IH [of "import_legacy_file ad st f"] by (auto simp add: import_legacy_updates_def)
qed

lemma import_legacy_updates_unlinked:
  "set (ls_unlinked (import_legacy_updates ad fs st)) \<subseteq> set (ls_unlinked st) \<union> set fs"
proof (induction fs arbitrary: st)
  case Nil
  show ?case by (simp add: import_legacy_updates_def)
next
  case (Cons f fs)
  have "set (ls_unlinked (import_legacy_file ad st f)) \<subseteq> set (ls_unlinked st) \<union> {f}"
    by (auto simp add: import_legacy_file_def split: sum.splits)
  then show ?case
    using Cons.IH [of "import_legacy_file ad st f"] by (auto simp add: import_legacy_updates_def)
qed

text \<open>
  Claim C6. Let a file of the legacy import queue be malformed, that is, the import of it
  fails. Then the failure is reported and the loop goes on; the store after the whole queue
  is the store that the queue without this file gives, and the same files are deleted, so
  the file has changed nothing in the store and the files after it are imported as if it had
  not been there; and the file itself is not deleted.
\<close>

theorem import_legacy_updates_malformed:
  assumes "py_endswith fname (pystr ''.txt'')"
    and "import_legacy_update_file (basedir, fname)
           (ls_store (import_legacy_updates import_legacy_update_file before st)) = Inl e"
    and "(basedir, fname) \<notin> set (ls_unlinked st) \<union> set before \<union> set after"
  shows "ls_store (import_legacy_updates import_legacy_update_file
                     (before @ [(basedir, fname)] @ after) st) =
           ls_store (import_legacy_updates import_legacy_update_file (before @ after) st) \<and>
         ls_unlinked (import_legacy_updates import_legacy_update_file
                     (before @ [(basedir, fname)] @ after) st) =
           ls_unlinked (import_legacy_updates import_legacy_update_file (before @ after) st) \<and>
         (basedir, fname) \<notin> set (ls_unlinked (import_legacy_updates import_legacy_update_file
                     (before @ [(basedir, fname)] @ after) st)) \<and>
         Failed_to_apply fname e \<in> set (ls_printed (import_legacy_updates import_legacy_update_file
                     (before @ [(basedir, fname)] @ after) st))"
proof -
  let ?ad = import_legacy_update_file
  let ?f = "(basedir, fname)"
  define st1 where "st1 = import_legacy_updates ?ad before st"
  define st2 where "st2 = st1\<lparr>ls_printed := ls_printed st1 @ [Failed_to_apply fname e]\<rparr>"
  have step: "import_legacy_updates ?ad [?f] st1 = st2"
    using assms(1,2) by (simp add: import_legacy_updates_def import_legacy_file_def st1_def st2_def)
  have whole: "import_legacy_updates ?ad (before @ [?f] @ after) st = import_legacy_updates ?ad after st2"
  proof -
    have "import_legacy_updates ?ad (before @ [?f] @ after) st =
            import_legacy_updates ?ad after (import_legacy_updates ?ad [?f] st1)"
      unfolding st1_def by (simp only: import_legacy_updates_append)
    then show ?thesis by (simp only: step)
  qed
  have without: "import_legacy_updates ?ad (before @ after) st = import_legacy_updates ?ad after st1"
    by (simp add: import_legacy_updates_append st1_def)
  have same: "ls_store (import_legacy_updates ?ad after st2) = ls_store (import_legacy_updates ?ad after st1) \<and>
        ls_unlinked (import_legacy_updates ?ad after st2) = ls_unlinked (import_legacy_updates ?ad after st1)"
    by (rule import_legacy_updates_printed_irrelevant) (simp_all add: st2_def)
  have "set (ls_unlinked (import_legacy_updates ?ad (before @ after) st))
          \<subseteq> set (ls_unlinked st) \<union> set (before @ after)"
    by (rule import_legacy_updates_unlinked)
  then have kept: "?f \<notin> set (ls_unlinked (import_legacy_updates ?ad (before @ after) st))"
    using assms(3) by auto
  have "Failed_to_apply fname e \<in> set (ls_printed st2)"
    by (simp add: st2_def)
  then have reported: "Failed_to_apply fname e \<in> set (ls_printed (import_legacy_updates ?ad after st2))"
    using import_legacy_updates_printed_kept [of st2 ?ad after] by blast
  show ?thesis
    using same kept reported unfolding whole without by simp
qed


theorem import_legacy_updates_malformed_witness:
  "ls_store (import_legacy_updates
       (\<lambda>(dir, name) store. if name = pystr ''bad.txt'' then Inl (pystr ''no header'')
          else Inr (set_translation_and_comment_for_hash (pystr ''h1'') (Some name) None store))
       ([(pystr ''upd'', pystr ''a.txt'')] @ [(pystr ''upd'', pystr ''bad.txt'')] @
        [(pystr ''upd'', pystr ''b.txt''), (pystr ''upd'', pystr ''notes.md'')])
       \<lparr>ls_store = \<lparr>scene_map = [],
            line_by_hash = [(pystr ''h1'', \<lparr>jp_text = pystr ''x'', en_text = None, comment = None\<rparr>)],
            overrides_by_offset = []\<rparr>,
        ls_unlinked = [], ls_printed = []\<rparr>) =
     \<lparr>scene_map = [],
      line_by_hash = [(pystr ''h1'', \<lparr>jp_text = pystr ''x'', en_text = Some (pystr ''b.txt''), comment = None\<rparr>)],
      overrides_by_offset = []\<rparr> \<and>
   ls_unlinked (import_legacy_updates
       (\<lambda>(dir, name) store. if name = pystr ''bad.txt'' then Inl (pystr ''no header'')
          else Inr (set_translation_and_comment_for_hash (pystr ''h1'') (Some name) None store))
       ([(pystr ''upd'', pystr ''a.txt'')] @ [(pystr ''upd'', pystr ''bad.txt'')] @
        [(pystr ''upd'', pystr ''b.txt''), (pystr ''upd'', pystr ''notes.md'')])
       \<lparr>ls_store = \<lparr>scene_map = [],
            line_by_hash = [(pystr ''h1'', \<lparr>jp_text = pystr ''x'', en_text = None, comment = None\<rparr>)],
            overrides_by_offset = []\<rparr>,
        ls_unlinked = [], ls_printed = []\<rparr>) =
     [(pystr ''upd'', pystr ''a.txt''), (pystr ''upd'', pystr ''b.txt'')]"
proof -
  let ?ad = "\<lambda>(dir, name) store. if name = pystr ''bad.txt'' then Inl (pystr ''no header'')
          else Inr (set_translation_and_comment_for_hash (pystr ''h1'') (Some name) None store)"
  let ?before = "[(pystr ''upd'', pystr ''a.txt'')]"
  let ?after = "[(pystr ''upd'', pystr ''b.txt''), (pystr ''upd'', pystr ''notes.md'')]"
  let ?st = "\<lparr>ls_store = \<lparr>scene_map = [],
            line_by_hash = [(pystr ''h1'', \<lparr>jp_text = pystr ''x'', en_text = None, comment = None\<rparr>)],
            overrides_by_offset = []\<rparr>,
        ls_unlinked = [], ls_printed = []\<rparr>"
  have ext: "py_endswith (pystr ''bad.txt'') (pystr ''.txt'')"
    by (simp add: py_endswith_def pystr_def)
  have fails: "?ad (pystr ''upd'', pystr ''bad.txt'') (ls_store (import_legacy_updates ?ad ?before ?st))
                 = Inl (pystr ''no header'')"
    by simp
  have once: "(pystr ''upd'', pystr ''bad.txt'') \<notin> set (ls_unlinked ?st) \<union> set ?before \<union> set ?after"
    by (simp add: pystr_def)
  have without: "import_legacy_updates ?ad (?before @ ?after) ?st =
     \<lparr>ls_store = \<lparr>scene_map = [],
          line_by_hash = [(pystr ''h1'', \<lparr>jp_text = pystr ''x'', en_text = Some (pystr ''b.txt''), comment = None\<rparr>)],
          overrides_by_offset = []\<rparr>,
      ls_unlinked = [(pystr ''upd'', pystr ''a.txt''), (pystr ''upd'', pystr ''b.txt'')],
      ls_printed = []\<rparr>"
    by (simp add: import_legacy_updates_def import_legacy_file_def py_endswith_def pystr_def
        set_translation_and_comment_for_hash_def)
  from import_legacy_updates_malformed [of "pystr ''bad.txt''" ?ad "pystr ''upd''" ?before ?st
      "pystr ''no header''" ?after, OF ext fails once]
  show ?thesis unfolding without by simp
qed

section \<open>Properties of the reflow\<close>

lemma glue_test_map:
  "content_hash (pystr ''jp0'') \<noteq> content_hash (pystr ''jp1'') \<Longrightarrow>
     generate_linebroken_text_map (glue_test_db content_hash text0 text1) =
       zip [0, 1] (render_spans False
                     (split_spans [length text0, length text1] (wrap_buffer (text0 @ text1))))"
  by (simp add: generate_linebroken_text_map_def glue_test_db_def reflow_chain_def
      resolved_text_def Let_def)

lemma lookahead_wrapped:
  \<open>render_spans False
     (split_spans [length (pystr ''"Good morning, Shiki-san. You're up early this morning.''),
                   length (pystr ''"'')]
        (wrap_buffer (pystr ''"Good morning, Shiki-san. You're up early this morning.'' @ pystr ''"'')))
   = [pystr ''"Good morning, Shiki-san. You're up early this\<newline>morning.'', pystr ''"'']\<close>
  by (simp add: pystr_def wrap_buffer_def is_space_def chars_per_line_def)


lemma aligned_wrapped:
  \<open>render_spans False
     (split_spans [length (pystr ''Laughing in frantic desperation, I run over to Arcueid,''),
                   length (pystr '' and forcefully grab her by the arm.'')]
        (wrap_buffer (pystr ''Laughing in frantic desperation, I run over to Arcueid,'' @
                      pystr '' and forcefully grab her by the arm.'')))
   = [pystr ''Laughing in frantic desperation, I run over to Arcueid,\<newline>'',
      pystr ''and forcefully grab her by the arm.'']\<close>
  by (simp add: pystr_def wrap_buffer_def is_space_def chars_per_line_def)

text \<open>
  Claim C5 (\<open>test_glue_lookahead\<close>). With the closing quote glued to it, the first text is
  broken before its last word, at the space after \<open>this\<close>; the second text, the quote, is
  unchanged.
\<close>

theorem glue_lookahead_reflow:
  \<open>content_hash (pystr ''jp0'') \<noteq> content_hash (pystr ''jp1'') \<Longrightarrow>
     generate_linebroken_text_map
       (glue_test_db content_hash
          (pystr ''"Good morning, Shiki-san. You're up early this morning.'') (pystr ''"''))
     = [(0, pystr ''"Good morning, Shiki-san. You're up early this\<newline>morning.''),
        (1, pystr ''"'')]\<close>
proof -
  assume "content_hash (pystr ''jp0'') \<noteq> content_hash (pystr ''jp1'')"
  from glue_test_map [OF this] show ?thesis
    by (simp only: lookahead_wrapped) simp
qed

theorem glue_lookahead_reflow_witness:
  \<open>pystr ''jp0'' \<noteq> pystr ''jp1'' \<and>
   generate_linebroken_text_map
       (glue_test_db (\<lambda>source. source)
          (pystr ''"Good morning, Shiki-san. You're up early this morning.'') (pystr ''"''))
     = [(0, pystr ''"Good morning, Shiki-san. You're up early this\<newline>morning.''),
        (1, pystr ''"'')]\<close>
proof -
  have distinct_sources: "pystr ''jp0'' \<noteq> pystr ''jp1''"
    by (simp add: pystr_def)
  from distinct_sources glue_lookahead_reflow [of "\<lambda>source. source", OF distinct_sources]
  show ?thesis by (rule conjI)
qed

text \<open>
  Claim C4, as stated, leaves the second text untouched at its head. The break takes the
  place of the space at the head of the second text, which is what \<open>test_glue_aligned_line\<close>
  expects: the second text comes out without its leading space.
\<close>

theorem glue_aligned_second_text_counterexample:
  \<open>map_of (generate_linebroken_text_map
       (glue_test_db (\<lambda>source. source)
          (pystr ''Laughing in frantic desperation, I run over to Arcueid,'')
          (pystr '' and forcefully grab her by the arm.''))) 1
     = Some (pystr ''and forcefully grab her by the arm.'') \<and>
   pystr ''and forcefully grab her by the arm.'' \<noteq> pystr '' and forcefully grab her by the arm.''\<close>
proof -
  have "pystr ''jp0'' \<noteq> pystr ''jp1''"
    by (simp add: pystr_def)
  from glue_test_map [of "\<lambda>source. source", OF this]
  have "generate_linebroken_text_map
       (glue_test_db (\<lambda>source. source)
          (pystr ''Laughing in frantic desperation, I run over to Arcueid,'')
          (pystr '' and forcefully grab her by the arm.''))
     = zip [0, 1] [pystr ''Laughing in frantic desperation, I run over to Arcueid,\<newline>'',
                   pystr ''and forcefully grab her by the arm.'']"
    by (simp only: aligned_wrapped)
  moreover have "pystr ''and forcefully grab her by the arm.'' \<noteq> pystr '' and forcefully grab her by the arm.''"
    by (simp add: pystr_def)
  ultimately show ?thesis by simp
qed

text \<open>
  Claim C4, amended (\<open>test_glue_aligned_line\<close>). The first text fills its line exactly and
  gets the line break appended; the second text loses the space at its head, which the
  break replaced, and is otherwise unchanged.
\<close>

theorem glue_aligned_reflow:
  \<open>content_hash (pystr ''jp0'') \<noteq> content_hash (pystr ''jp1'') \<Longrightarrow>
     generate_linebroken_text_map
       (glue_test_db content_hash
          (pystr ''Laughing in frantic desperation, I run over to Arcueid,'')
          (pystr '' and forcefully grab her by the arm.''))
     = [(0, pystr ''Laughing in frantic desperation, I run over to Arcueid,\<newline>''),
        (1, pystr ''and forcefully grab her by the arm.'')]\<close>
proof -
  assume "content_hash (pystr ''jp0'') \<noteq> content_hash (pystr ''jp1'')"
  from glue_test_map [OF this] show ?thesis
    by (simp only: aligned_wrapped) simp
qed

theorem glue_aligned_reflow_witness:
  \<open>pystr ''jp0'' \<noteq> pystr ''jp1'' \<and>
   generate_linebroken_text_map
       (glue_test_db (\<lambda>source. source)
          (pystr ''Laughing in frantic desperation, I run over to Arcueid,'')
          (pystr '' and forcefully grab her by the arm.''))
     = [(0, pystr ''Laughing in frantic desperation, I run over to Arcueid,\<newline>''),
        (1, pystr ''and forcefully grab her by the arm.'')]\<close>
proof -
  have distinct_sources: "pystr ''jp0'' \<noteq> pystr ''jp1''"
    by (simp add: pystr_def)
  from distinct_sources glue_aligned_reflow [of "\<lambda>source. source", OF distinct_sources]
  show ?thesis by (rule conjI)
qed

section \<open>Properties of the opcode parser\<close>















text \<open>
  The other parser tests of \<open>tests/test_translation_db.py\<close>
  (\<open>test_forced_newline_subsequent_line\<close>, \<open>test_forced_newline_subsequent_line_glue\<close>,
  \<open>test_x_glue\<close>): the model gives the references that the tests expect.
\<close>

lemma parser_tests:
  "parse_script_cmds (\<lambda>off. Some (pystr ''a content hash''))
     (pystr ''_ZMbc419($043897^$043898@n);'') =
       Inr [TC 43897 (pystr ''a content hash'') [pystr ''@n''] True False,
            TC 43898 (pystr ''a content hash'') [pystr ''@n''] False False]"
  "parse_script_cmds (\<lambda>off. Some (pystr ''a content hash''))
     (pystr ''_ZMbc419($043897^$043898@n);_MSAD($014370);'') =
       Inr [TC 43897 (pystr ''a content hash'') [pystr ''@n''] True False,
            TC 43898 (pystr ''a content hash'') [pystr ''@n''] False False,
            TC 14370 (pystr ''a content hash'') [] False True]"
  "parse_script_cmds (\<lambda>off. Some (pystr ''a content hash''))
     (pystr ''_ZM0349a($001493@k@e);_ZM0349b(@x$001494);'') =
       Inr [TC 1493 (pystr ''a content hash'') [pystr ''@k'', pystr ''@e''] False False,
            TC 1494 (pystr ''a content hash'') [pystr ''@x''] False True]"
  by (simp_all add: parse_script_cmds_def parse_cmd_def classify_def py_startswith_def
      py_endswith_def pystr_def all_operands_def parse_operand_def modifier_tags_def
      is_decimal_def py_int_def resolve_offset_def dangling_def TC_def Let_def)

lemma py_split_not_empty: "py_split sep a \<noteq> []"
  by (induction a) (auto split: list.splits)




















end
